theory Spec2Isabelle
  imports Main
begin

section \<open>Data model\<close>

text \<open>
  Modelled from the spec: the Bill and Receipt schemas (\<^verbatim>\<open>models/billingModel.js\<close>,
  \<^verbatim>\<open>models/receiptModel.js\<close>) are not part of the sources; the records below carry
  exactly the fields that \<^verbatim>\<open>controllers/migrationController.js\<close> reads and writes,
  with the types section 3 of the specification gives them.  Document identities
  (\<^verbatim>\<open>_id\<close>) are natural numbers, amounts are integers (the controller only compares
  them with \<open>0\<close> and with each other), dates are integers, optional strings are
  \<open>string option\<close>.
\<close>

type_synonym oid = nat

record payment =
  paid :: int
  p_type :: string
  cardNumber :: "string option"
  utrNumber :: "string option"

record bill =
  b_id :: oid
  b_billNumber :: string
  b_payment :: payment
  b_status :: string
  b_date :: int
  b_createdBy :: oid

record paymentMethod =
  pm_type :: string
  pm_cardNumber :: string
  pm_utrNumber :: string

record receipt =
  r_id :: oid
  receiptNumber :: string
  r_billNumber :: string
  billingId :: "oid option"
  r_type :: string
  amount :: int
  r_paymentMethod :: paymentMethod
  newStatus :: string
  remarks :: string
  r_createdBy :: oid
  r_date :: int

text \<open>The two collections, in their natural order.\<close>

record db =
  bills :: "bill list"
  receipts :: "receipt list"

section \<open>Collaborators: storage faults and identifier generation\<close>

text \<open>
  Every call into the storage layer (\<^verbatim>\<open>find\<close>, \<^verbatim>\<open>findById\<close>, \<^verbatim>\<open>findOne\<close>,
  \<^verbatim>\<open>save\<close>, \<^verbatim>\<open>findByIdAndUpdate\<close>, \<^verbatim>\<open>commitTransaction\<close>) may throw.  An
  invocation numbers its storage calls \<open>0, 1, 2, \<dots>\<close> in the order it issues them;
  \<open>F k = Some e\<close> says that call number \<open>k\<close> throws an error whose \<^verbatim>\<open>message\<close> is
  \<open>e\<close>.
\<close>

type_synonym faults = "nat \<Rightarrow> string option"

definition no_faults :: faults where
  "no_faults = (\<lambda>k. None)"

text \<open>
  \<open>first_fault F k n\<close>: the error thrown by the earliest failing call among the
  \<open>n\<close> storage calls numbered \<open>k, \<dots>, k + n - 1\<close>, if one of them fails.
\<close>

fun first_fault :: "faults \<Rightarrow> nat \<Rightarrow> nat \<Rightarrow> string option" where
  "first_fault F k 0 = None"
| "first_fault F k (Suc n) =
     (case F k of Some e \<Rightarrow> Some e | None \<Rightarrow> first_fault F (Suc k) n)"

text \<open>
  The generators the controller calls: \<^verbatim>\<open>uuidv4()\<close> and the \<^verbatim>\<open>_id\<close> minted by
  \<^verbatim>\<open>new Receipt(\<dots>)\<close>.  The argument is the number of receipts the invocation has
  built before.
\<close>

record env =
  uuidv4 :: "nat \<Rightarrow> string"
  newObjectId :: "nat \<Rightarrow> oid"

definition toUpperCase :: "string \<Rightarrow> string" where
  "toUpperCase s =
     map (\<lambda>c. let n = (of_char c :: nat) in
                if 97 \<le> n \<and> n \<le> 122 then char_of (n - 32) else c) s"

definition generateReceiptNumber :: "string \<Rightarrow> string" where
  "generateReceiptNumber uuid = ''REC'' @ toUpperCase (drop (length uuid - 8) uuid)"

text \<open>Decimal rendering of a count inside a template string.\<close>

fun show_nat :: "nat \<Rightarrow> string" where
  "show_nat n =
     (if n < 10 then [char_of (48 + n)]
      else show_nat (n div 10) @ [char_of (48 + n mod 10)])"

declare show_nat.simps [simp del]

section \<open>The ledger store and its session\<close>

text \<open>
  The storage the handlers talk to through \<^verbatim>\<open>mongoose\<close>: the committed collections,
  and the state of the transaction of the handler's session.  A transaction in progress
  holds its own copy of the collections, taken when it starts.  A read or write that
  carries the session (\<^verbatim>\<open>.session(session)\<close>, \<^verbatim>\<open>{ session }\<close>) goes to that copy; one
  that does not goes to the committed collections at once.  \<^verbatim>\<open>commitTransaction\<close> makes
  the copy the committed collections; \<^verbatim>\<open>abortTransaction\<close> drops it.  Once
  \<^verbatim>\<open>commitTransaction\<close> has been called, whether it returned or threw, the session
  refuses \<^verbatim>\<open>abortTransaction\<close>: the call throws (\<open>None\<close> below), as it does when no
  transaction was started.  A commit that throws commits nothing.  \<^verbatim>\<open>endSession\<close>
  drops whatever transaction is left.
\<close>

datatype txn = Idle | InProgress db | CommitAttempted

record store =
  committed :: db
  session :: txn

definition startTransaction :: "store \<Rightarrow> store" where
  "startTransaction st = st\<lparr>session := InProgress (committed st)\<rparr>"

definition snapshot :: "bool \<Rightarrow> store \<Rightarrow> db" where
  "snapshot in_session st =
     (case session st of
        InProgress w \<Rightarrow> if in_session then w else committed st
      | _ \<Rightarrow> committed st)"

definition write_receipts :: "bool \<Rightarrow> (receipt list \<Rightarrow> receipt list) \<Rightarrow> store \<Rightarrow> store" where
  "write_receipts in_session f st =
     (case session st of
        InProgress w \<Rightarrow>
          if in_session then st\<lparr>session := InProgress (w\<lparr>receipts := f (receipts w)\<rparr>)\<rparr>
          else st\<lparr>committed := (committed st)\<lparr>receipts := f (receipts (committed st))\<rparr>\<rparr>
      | _ \<Rightarrow> st\<lparr>committed := (committed st)\<lparr>receipts := f (receipts (committed st))\<rparr>\<rparr>)"

definition commitTransaction :: "store \<Rightarrow> store" where
  "commitTransaction st =
     (case session st of
        InProgress w \<Rightarrow> \<lparr> committed = w, session = CommitAttempted \<rparr>
      | _ \<Rightarrow> st\<lparr>session := CommitAttempted\<rparr>)"

text \<open>The session after a \<^verbatim>\<open>commitTransaction\<close> that threw.\<close>

definition commitThrown :: "store \<Rightarrow> store" where
  "commitThrown st = st\<lparr>session := CommitAttempted\<rparr>"

definition abortTransaction :: "store \<Rightarrow> store option" where
  "abortTransaction st =
     (case session st of
        InProgress w \<Rightarrow> Some (st\<lparr>session := Idle\<rparr>)
      | _ \<Rightarrow> None)"

definition endSession :: "store \<Rightarrow> store" where
  "endSession st = st\<lparr>session := Idle\<rparr>"

text \<open>
  \<^verbatim>\<open>mongoose.startSession()\<close> and \<^verbatim>\<open>session.startTransaction()\<close> on the collections
  \<open>d\<close>; the two calls stand before the \<^verbatim>\<open>try\<close> block and are not storage calls of the
  fault numbering.
\<close>

definition begin_session :: "db \<Rightarrow> store" where
  "begin_session d = startTransaction \<lparr> committed = d, session = Idle \<rparr>"

section \<open>Responses\<close>

record fixedReceipt =
  fr_receiptNumber :: string
  fr_billNumber :: string
  fr_oldAmount :: int
  fr_newAmount :: int
  fr_type :: string

record billFixedReceipt =
  bf_receiptNumber :: string
  bf_oldAmount :: int
  bf_newAmount :: int

record missingEntry =
  me_billNumber :: string
  me_paidAmount :: int
  me_status :: string
  me_date :: int

record zeroEntry =
  ze_receiptNumber :: string
  ze_billNumber :: string
  ze_receiptAmount :: int
  ze_expectedAmount :: int
  ze_type :: string

record duplicateEntry =
  de_billNumber :: string
  de_duplicateType :: string
  de_count :: nat
  de_receipts :: "string list"

record orphanEntry =
  oe_receiptNumber :: string
  oe_billNumber :: string
  oe_amount :: int
  oe_type :: string

record report =
  totalBills :: nat
  totalReceipts :: nat
  billsWithoutReceipts :: "missingEntry list"
  zeroAmountReceipts :: "zeroEntry list"
  duplicateReceipts :: "duplicateEntry list"
  orphanedReceipts :: "orphanEntry list"

text \<open>
  What the caller gets.  The first four constructors are the status-200 bodies
  (\<^verbatim>\<open>success: true\<close>): message, then the operation's own fields in the order of the
  source.  \<open>NotFound\<close> is the status-404 body \<^verbatim>\<open>{ message, success: false }\<close>;
  \<open>Failure\<close> is the status-500 body \<^verbatim>\<open>{ message, error, success: false }\<close>.
  \<open>NoResponse\<close>: the handler threw out of its \<^verbatim>\<open>catch\<close> block before it sent a body.
\<close>

datatype response =
    Created string nat nat
  | FixedZero string "fixedReceipt list" nat
  | FixedBill string string "billFixedReceipt list"
  | Audit string report
  | NotFound string
  | Failure string string
  | NoResponse

fun success :: "response \<Rightarrow> bool" where
  "success (Created m c t) = True"
| "success (FixedZero m fs t) = True"
| "success (FixedBill m bn fs) = True"
| "success (Audit m r) = True"
| "success (NotFound m) = False"
| "success (Failure m e) = False"
| "success NoResponse = False"

section \<open>createMissingReceipts\<close>

definition or_empty :: "string option \<Rightarrow> string" where
  "or_empty v = (case v of None \<Rightarrow> '''' | Some s \<Rightarrow> s)"

definition receiptData :: "env \<Rightarrow> nat \<Rightarrow> bill \<Rightarrow> receipt" where
  "receiptData E n b =
     \<lparr> r_id = newObjectId E n,
       receiptNumber = generateReceiptNumber (uuidv4 E n),
       r_billNumber = b_billNumber b,
       billingId = Some (b_id b),
       r_type = ''creation'',
       amount = paid (b_payment b),
       r_paymentMethod =
         \<lparr> pm_type = p_type (b_payment b),
           pm_cardNumber = or_empty (cardNumber (b_payment b)),
           pm_utrNumber = or_empty (utrNumber (b_payment b)) \<rparr>,
       newStatus = b_status b,
       remarks = ''Receipt created during migration'',
       r_createdBy = b_createdBy b,
       r_date = b_date b \<rparr>"

text \<open>
  The \<^verbatim>\<open>for (const bill of billsWithoutReceipts)\<close> loop.  \<open>k\<close> numbers the next
  storage call, \<open>st\<close> is the store, \<open>created\<close> is \<^verbatim>\<open>createdReceipts\<close>.  \<open>Inl (e, st)\<close>
  is the exception thrown by \<^verbatim>\<open>receipt.save({ session })\<close>, with the store as it is
  then.
\<close>

fun create_loop ::
  "env \<Rightarrow> faults \<Rightarrow> nat \<Rightarrow> bill list \<Rightarrow> store \<Rightarrow> receipt list
     \<Rightarrow> (string \<times> store) + (nat \<times> store \<times> receipt list)" where
  "create_loop E F k [] st created = Inr (k, st, created)"
| "create_loop E F k (b # bs) st created =
     (if paid (b_payment b) > 0 then
        (let r = receiptData E (length created) b in
         case F k of
           Some e \<Rightarrow> Inl (e, st)
         | None \<Rightarrow>
             create_loop E F (Suc k) bs
               (write_receipts True (\<lambda>rs. rs @ [r]) st) (created @ [r]))
      else create_loop E F k bs st created)"

text \<open>The body of the \<^verbatim>\<open>try\<close> block, up to and including the commit.\<close>

definition create_try ::
  "env \<Rightarrow> faults \<Rightarrow> store \<Rightarrow> (string \<times> store) + (store \<times> response)" where
  "create_try E F st =
     (case F 0 of Some e \<Rightarrow> Inl (e, st) | None \<Rightarrow>
       (let allBills = bills (snapshot True st) in
        (case F 1 of Some e \<Rightarrow> Inl (e, st) | None \<Rightarrow>
          (let existingReceipts = receipts (snapshot True st);
               existingBillNumbers = set (map r_billNumber existingReceipts);
               billsWithoutReceipts =
                 filter (\<lambda>b. b_billNumber b \<notin> existingBillNumbers) allBills
           in
            (case create_loop E F 2 billsWithoutReceipts st [] of
               Inl (e, st1) \<Rightarrow> Inl (e, st1)
             | Inr (k, st1, createdReceipts) \<Rightarrow>
                 (case F k of
                    Some e \<Rightarrow> Inl (e, commitThrown st1)
                  | None \<Rightarrow>
                    Inr (commitTransaction st1,
                      Created
                        (''Successfully created '' @ show_nat (length createdReceipts)
                           @ '' missing receipts'')
                        (length createdReceipts) (length allBills))))))))"

text \<open>
  The whole handler: the committed collections after the call, and what the caller
  gets.  The \<^verbatim>\<open>catch\<close> block first awaits \<^verbatim>\<open>abortTransaction\<close>; when that throws,
  the body is never sent.  \<^verbatim>\<open>finally\<close> ends the session.
\<close>

definition createMissingReceipts :: "env \<Rightarrow> faults \<Rightarrow> db \<Rightarrow> db \<times> response" where
  "createMissingReceipts E F d =
     (case create_try E F (begin_session d) of
        Inr (st, resp) \<Rightarrow> (committed (endSession st), resp)
      | Inl (e, st) \<Rightarrow>
          (case abortTransaction st of
             None \<Rightarrow> (committed (endSession st), NoResponse)
           | Some st' \<Rightarrow>
               (committed (endSession st'),
                Failure ''Error creating missing receipts'' e)))"

section \<open>fixZeroAmountReceipts\<close>

text \<open>
  \<^verbatim>\<open>Billing.findById(receipt.billingId)\<close>: the bill whose \<^verbatim>\<open>_id\<close> is the given one;
  an absent identity finds nothing.
\<close>

definition findById :: "bill list \<Rightarrow> oid option \<Rightarrow> bill option" where
  "findById bs i = (case i of None \<Rightarrow> None | Some j \<Rightarrow> find (\<lambda>b. b_id b = j) bs)"

text \<open>
  \<^verbatim>\<open>Receipt.findByIdAndUpdate(id, { amount: a })\<close>: the document with that \<^verbatim>\<open>_id\<close>
  gets the new amount; nothing else is written.
\<close>

fun findByIdAndUpdate :: "oid \<Rightarrow> int \<Rightarrow> receipt list \<Rightarrow> receipt list" where
  "findByIdAndUpdate i a [] = []"
| "findByIdAndUpdate i a (x # xs) =
     (if r_id x = i then x\<lparr>amount := a\<rparr> # xs else x # findByIdAndUpdate i a xs)"

text \<open>
  The value of \<^verbatim>\<open>correctAmount\<close> when the loop body reaches its last \<^verbatim>\<open>if\<close>;
  \<open>None\<close> is the \<^verbatim>\<open>continue\<close> of the \<^verbatim>\<open>payment\<close> branch.
\<close>

definition zero_correctAmount :: "receipt \<Rightarrow> bill \<Rightarrow> int option" where
  "zero_correctAmount r billing =
     (if r_type r = ''creation'' then Some (paid (b_payment billing))
      else if r_type r = ''payment'' then None
      else if r_type r = ''cancellation'' then Some (paid (b_payment billing))
      else Some 0)"

definition zero_fixed_entry :: "receipt \<Rightarrow> int \<Rightarrow> fixedReceipt" where
  "zero_fixed_entry r correctAmount =
     \<lparr> fr_receiptNumber = receiptNumber r,
       fr_billNumber = r_billNumber r,
       fr_oldAmount = amount r,
       fr_newAmount = correctAmount,
       fr_type = r_type r \<rparr>"

text \<open>
  The \<^verbatim>\<open>for (const receipt of zeroAmountReceipts)\<close> loop.  Each iteration issues
  \<^verbatim>\<open>findById\<close> (call \<open>k\<close>) and, when it corrects, \<^verbatim>\<open>findByIdAndUpdate\<close>
  (call \<open>Suc k\<close>), both with the session.  The receipts iterated are the documents as
  they were read before the loop.
\<close>

fun fix_zero_loop ::
  "faults \<Rightarrow> nat \<Rightarrow> receipt list \<Rightarrow> store \<Rightarrow> fixedReceipt list
     \<Rightarrow> (string \<times> store) + (nat \<times> store \<times> fixedReceipt list)" where
  "fix_zero_loop F k [] st fixed = Inr (k, st, fixed)"
| "fix_zero_loop F k (r # rs) st fixed =
     (case F k of
        Some e \<Rightarrow> Inl (e, st)
      | None \<Rightarrow>
         (case findById (bills (snapshot True st)) (billingId r) of
            None \<Rightarrow> fix_zero_loop F (Suc k) rs st fixed
          | Some billing \<Rightarrow>
             (case zero_correctAmount r billing of
                None \<Rightarrow> fix_zero_loop F (Suc k) rs st fixed
              | Some correctAmount \<Rightarrow>
                 (if correctAmount > 0 \<and> correctAmount \<noteq> amount r then
                    (case F (Suc k) of
                       Some e \<Rightarrow> Inl (e, st)
                     | None \<Rightarrow>
                        fix_zero_loop F (Suc (Suc k)) rs
                          (write_receipts True (findByIdAndUpdate (r_id r) correctAmount) st)
                          (fixed @ [zero_fixed_entry r correctAmount]))
                  else fix_zero_loop F (Suc k) rs st fixed))))"

definition fix_zero_try :: "faults \<Rightarrow> store \<Rightarrow> (string \<times> store) + (store \<times> response)" where
  "fix_zero_try F st =
     (case F 0 of Some e \<Rightarrow> Inl (e, st) | None \<Rightarrow>
       (let zeroAmountReceipts = filter (\<lambda>r. amount r \<le> 0) (receipts (snapshot True st)) in
        (case fix_zero_loop F 1 zeroAmountReceipts st [] of
           Inl (e, st1) \<Rightarrow> Inl (e, st1)
         | Inr (k, st1, fixedReceipts) \<Rightarrow>
             (case F k of
                Some e \<Rightarrow> Inl (e, commitThrown st1)
              | None \<Rightarrow>
                Inr (commitTransaction st1,
                  FixedZero
                    (''Successfully fixed '' @ show_nat (length fixedReceipts) @ '' receipts'')
                    fixedReceipts (length zeroAmountReceipts))))))"

definition fixZeroAmountReceipts :: "faults \<Rightarrow> db \<Rightarrow> db \<times> response" where
  "fixZeroAmountReceipts F d =
     (case fix_zero_try F (begin_session d) of
        Inr (st, resp) \<Rightarrow> (committed (endSession st), resp)
      | Inl (e, st) \<Rightarrow>
          (case abortTransaction st of
             None \<Rightarrow> (committed (endSession st), NoResponse)
           | Some st' \<Rightarrow>
               (committed (endSession st'),
                Failure ''Error fixing zero amount receipts'' e)))"

section \<open>fixSpecificBillReceipt\<close>

definition bill_correctAmount :: "receipt \<Rightarrow> bill \<Rightarrow> int" where
  "bill_correctAmount r billing =
     (if r_type r = ''creation'' then paid (b_payment billing)
      else if r_type r = ''cancellation'' then paid (b_payment billing)
      else 0)"

definition bill_fixed_entry :: "receipt \<Rightarrow> int \<Rightarrow> billFixedReceipt" where
  "bill_fixed_entry r correctAmount =
     \<lparr> bf_receiptNumber = receiptNumber r,
       bf_oldAmount = amount r,
       bf_newAmount = correctAmount \<rparr>"

fun fix_bill_loop ::
  "faults \<Rightarrow> nat \<Rightarrow> bill \<Rightarrow> receipt list \<Rightarrow> store \<Rightarrow> billFixedReceipt list
     \<Rightarrow> (string \<times> store) + (nat \<times> store \<times> billFixedReceipt list)" where
  "fix_bill_loop F k billing [] st fixed = Inr (k, st, fixed)"
| "fix_bill_loop F k billing (r # rs) st fixed =
     (let correctAmount = bill_correctAmount r billing in
      if correctAmount > 0 \<and> correctAmount \<noteq> amount r then
        (case F k of
           Some e \<Rightarrow> Inl (e, st)
         | None \<Rightarrow>
            fix_bill_loop F (Suc k) billing rs
              (write_receipts True (findByIdAndUpdate (r_id r) correctAmount) st)
              (fixed @ [bill_fixed_entry r correctAmount]))
      else fix_bill_loop F k billing rs st fixed)"

text \<open>
  \<^verbatim>\<open>Billing.findOne({ billNumber })\<close> is call \<open>0\<close>.  When it finds nothing the handler
  aborts the transaction itself and answers 404; an abort that throws there would be
  caught like any other exception (its message, left empty here, is never sent).
\<close>

definition fix_bill_try ::
  "faults \<Rightarrow> string \<Rightarrow> store \<Rightarrow> (string \<times> store) + (store \<times> response)" where
  "fix_bill_try F billNumber st =
     (case F 0 of Some e \<Rightarrow> Inl (e, st) | None \<Rightarrow>
       (case find (\<lambda>b. b_billNumber b = billNumber) (bills (snapshot True st)) of
          None \<Rightarrow>
            (case abortTransaction st of
               None \<Rightarrow> Inl ([], st)
             | Some st' \<Rightarrow> Inr (st', NotFound (''Bill '' @ billNumber @ '' not found'')))
        | Some billing \<Rightarrow>
           (case F 1 of Some e \<Rightarrow> Inl (e, st) | None \<Rightarrow>
             (let rs = filter (\<lambda>r. r_billNumber r = billNumber)
                         (receipts (snapshot True st)) in
              (case fix_bill_loop F 2 billing rs st [] of
                 Inl (e, st1) \<Rightarrow> Inl (e, st1)
               | Inr (k, st1, fixedReceipts) \<Rightarrow>
                   (case F k of
                      Some e \<Rightarrow> Inl (e, commitThrown st1)
                    | None \<Rightarrow>
                      Inr (commitTransaction st1,
                        FixedBill
                          (''Fixed '' @ show_nat (length fixedReceipts)
                             @ '' receipts for bill '' @ billNumber)
                          billNumber fixedReceipts)))))))"

definition fixSpecificBillReceipt :: "faults \<Rightarrow> string \<Rightarrow> db \<Rightarrow> db \<times> response" where
  "fixSpecificBillReceipt F billNumber d =
     (case fix_bill_try F billNumber (begin_session d) of
        Inr (st, resp) \<Rightarrow> (committed (endSession st), resp)
      | Inl (e, st) \<Rightarrow>
          (case abortTransaction st of
             None \<Rightarrow> (committed (endSession st), NoResponse)
           | Some st' \<Rightarrow>
               (committed (endSession st'),
                Failure (''Error fixing receipts for bill '' @ billNumber) e)))"

section \<open>getReceiptAuditReport\<close>

text \<open>The \<^verbatim>\<open>Map\<close> from bill number to the receipts carrying it, built by \<^verbatim>\<open>forEach\<close>.\<close>

definition get_or_empty :: "(string \<rightharpoonup> receipt list) \<Rightarrow> string \<Rightarrow> receipt list" where
  "get_or_empty m k = (case m k of None \<Rightarrow> [] | Some l \<Rightarrow> l)"

fun receiptsByBillNumber ::
  "receipt list \<Rightarrow> (string \<rightharpoonup> receipt list) \<Rightarrow> (string \<rightharpoonup> receipt list)" where
  "receiptsByBillNumber [] m = m"
| "receiptsByBillNumber (r # rs) m =
     receiptsByBillNumber rs (m(r_billNumber r \<mapsto> get_or_empty m (r_billNumber r) @ [r]))"

definition missing_entry :: "bill \<Rightarrow> missingEntry" where
  "missing_entry b =
     \<lparr> me_billNumber = b_billNumber b,
       me_paidAmount = paid (b_payment b),
       me_status = b_status b,
       me_date = b_date b \<rparr>"

definition zero_entry :: "bill \<Rightarrow> receipt \<Rightarrow> zeroEntry" where
  "zero_entry b r =
     \<lparr> ze_receiptNumber = receiptNumber r,
       ze_billNumber = b_billNumber b,
       ze_receiptAmount = amount r,
       ze_expectedAmount = paid (b_payment b),
       ze_type = r_type r \<rparr>"

definition duplicate_entry :: "bill \<Rightarrow> receipt list \<Rightarrow> duplicateEntry" where
  "duplicate_entry b creationReceipts =
     \<lparr> de_billNumber = b_billNumber b,
       de_duplicateType = ''creation'',
       de_count = length creationReceipts,
       de_receipts = map receiptNumber creationReceipts \<rparr>"

definition orphan_entry :: "receipt \<Rightarrow> orphanEntry" where
  "orphan_entry r =
     \<lparr> oe_receiptNumber = receiptNumber r,
       oe_billNumber = r_billNumber r,
       oe_amount = amount r,
       oe_type = r_type r \<rparr>"

text \<open>The \<^verbatim>\<open>for (const bill of allBills)\<close> loop over the report being filled.\<close>

fun check_bills :: "(string \<rightharpoonup> receipt list) \<Rightarrow> bill list \<Rightarrow> report \<Rightarrow> report" where
  "check_bills m [] rep = rep"
| "check_bills m (b # bs) rep =
     (let rs = get_or_empty m (b_billNumber b);
          rep1 = (if length rs = 0 \<and> paid (b_payment b) > 0
                  then rep\<lparr>billsWithoutReceipts :=
                             billsWithoutReceipts rep @ [missing_entry b]\<rparr>
                  else rep);
          rep2 = rep1\<lparr>zeroAmountReceipts :=
                   zeroAmountReceipts rep1 @
                     map (zero_entry b)
                       (filter (\<lambda>r. amount r \<le> 0 \<and> paid (b_payment b) > 0) rs)\<rparr>;
          creationReceipts = filter (\<lambda>r. r_type r = ''creation'') rs;
          rep3 = (if length creationReceipts > 1
                  then rep2\<lparr>duplicateReceipts :=
                              duplicateReceipts rep2 @ [duplicate_entry b creationReceipts]\<rparr>
                  else rep2)
      in check_bills m bs rep3)"

definition audit_report :: "bill list \<Rightarrow> receipt list \<Rightarrow> report" where
  "audit_report allBills allReceipts =
     (let m = receiptsByBillNumber allReceipts Map.empty;
          rep0 = \<lparr> totalBills = length allBills,
                   totalReceipts = length allReceipts,
                   billsWithoutReceipts = [],
                   zeroAmountReceipts = [],
                   duplicateReceipts = [],
                   orphanedReceipts = [] \<rparr>;
          rep = check_bills m allBills rep0;
          billNumbers = set (map b_billNumber allBills)
      in rep\<lparr>orphanedReceipts :=
               orphanedReceipts rep @
                 map orphan_entry (filter (\<lambda>r. r_billNumber r \<notin> billNumbers) allReceipts)\<rparr>)"

text \<open>The handler reads both collections (calls \<open>0\<close> and \<open>1\<close>) outside any transaction.\<close>

definition getReceiptAuditReport :: "faults \<Rightarrow> db \<Rightarrow> response" where
  "getReceiptAuditReport F d =
     (case F 0 of
        Some e \<Rightarrow> Failure ''Error generating audit report'' e
      | None \<Rightarrow>
         (case F 1 of
            Some e \<Rightarrow> Failure ''Error generating audit report'' e
          | None \<Rightarrow>
             Audit ''Receipt audit report generated successfully''
               (audit_report (bills d) (receipts d))))"

section \<open>Derived notions used in the statements and proofs\<close>

text \<open>
  \<open>zero_fix bs r\<close> and \<open>bill_fix billing r\<close>: the amount one iteration of the two
  correction loops writes for receipt \<open>r\<close>, or \<open>None\<close> when the iteration writes
  nothing.  \<open>apply_updates\<close> performs the writes of a whole pass, \<open>fixed_entries\<close>
  collects its records, \<open>update_calls\<close> and \<open>lookup_update_calls\<close> count the storage
  calls the pass issues.  The three \<open>_calls\<close> functions give the number of storage
  calls a whole invocation issues when none of them fails, read off the call counter
  of the fault-free run.
\<close>

definition zero_fix :: "bill list \<Rightarrow> receipt \<Rightarrow> int option" where
  "zero_fix bs r =
     (case findById bs (billingId r) of
        None \<Rightarrow> None
      | Some billing \<Rightarrow>
          (case zero_correctAmount r billing of
             None \<Rightarrow> None
           | Some c \<Rightarrow> if c > 0 \<and> c \<noteq> amount r then Some c else None))"

definition bill_fix :: "bill \<Rightarrow> receipt \<Rightarrow> int option" where
  "bill_fix billing r =
     (let c = bill_correctAmount r billing in
      if c > 0 \<and> c \<noteq> amount r then Some c else None)"

fun apply_updates :: "(receipt \<Rightarrow> int option) \<Rightarrow> receipt list \<Rightarrow> receipt list \<Rightarrow> receipt list" where
  "apply_updates dec [] s = s"
| "apply_updates dec (r # rs) s =
     apply_updates dec rs
       (case dec r of None \<Rightarrow> s | Some c \<Rightarrow> findByIdAndUpdate (r_id r) c s)"

fun update_calls :: "(receipt \<Rightarrow> int option) \<Rightarrow> receipt list \<Rightarrow> nat" where
  "update_calls dec [] = 0"
| "update_calls dec (r # rs) =
     (case dec r of None \<Rightarrow> update_calls dec rs | Some c \<Rightarrow> Suc (update_calls dec rs))"

fun lookup_update_calls :: "(receipt \<Rightarrow> int option) \<Rightarrow> receipt list \<Rightarrow> nat" where
  "lookup_update_calls dec [] = 0"
| "lookup_update_calls dec (r # rs) =
     (case dec r of None \<Rightarrow> Suc (lookup_update_calls dec rs)
      | Some c \<Rightarrow> Suc (Suc (lookup_update_calls dec rs)))"

fun fixed_entries :: "(receipt \<Rightarrow> int \<Rightarrow> 'e) \<Rightarrow> (receipt \<Rightarrow> int option) \<Rightarrow> receipt list \<Rightarrow> 'e list" where
  "fixed_entries mk dec [] = []"
| "fixed_entries mk dec (r # rs) =
     (case dec r of None \<Rightarrow> fixed_entries mk dec rs
      | Some c \<Rightarrow> mk r c # fixed_entries mk dec rs)"

definition create_calls :: "env \<Rightarrow> db \<Rightarrow> nat" where
  "create_calls E d =
     (case create_loop E no_faults 2
             (filter (\<lambda>b. b_billNumber b \<notin> set (map r_billNumber (receipts d))) (bills d))
             (begin_session d) [] of
        Inr (k, st, created) \<Rightarrow> Suc k
      | Inl e \<Rightarrow> 0)"

definition fix_zero_calls :: "db \<Rightarrow> nat" where
  "fix_zero_calls d =
     (case fix_zero_loop no_faults 1 (filter (\<lambda>r. amount r \<le> 0) (receipts d))
             (begin_session d) [] of
        Inr (k, st, fixed) \<Rightarrow> Suc k
      | Inl e \<Rightarrow> 0)"

definition fix_bill_calls :: "string \<Rightarrow> db \<Rightarrow> nat" where
  "fix_bill_calls billNumber d =
     (case find (\<lambda>b. b_billNumber b = billNumber) (bills d) of
        None \<Rightarrow> 1
      | Some billing \<Rightarrow>
         (case fix_bill_loop no_faults 2 billing
                 (filter (\<lambda>r. r_billNumber r = billNumber) (receipts d))
                 (begin_session d) [] of
            Inr (k, st, fixed) \<Rightarrow> Suc k
          | Inl e \<Rightarrow> 0))"

text \<open>The \<^verbatim>\<open>fixedReceipts\<close> field of a body; a body without the field has none.\<close>

fun zero_fixed :: "response \<Rightarrow> fixedReceipt list" where
  "zero_fixed (FixedZero m fixed t) = fixed"
| "zero_fixed resp = []"

fun bill_fixed :: "response \<Rightarrow> billFixedReceipt list" where
  "bill_fixed (FixedBill m bn fixed) = fixed"
| "bill_fixed resp = []"

text \<open>What a pass leaves of a receipt it decides on with \<open>dec\<close>.\<close>

definition corrected :: "(receipt \<Rightarrow> int option) \<Rightarrow> receipt \<Rightarrow> receipt" where
  "corrected dec x = (case dec x of None \<Rightarrow> x | Some c \<Rightarrow> x\<lparr>amount := c\<rparr>)"

section \<open>Example ledgers\<close>

text \<open>
  The ledgers the scenarios below are run on.  \<open>ledger\<close> holds bill \<open>B1\<close> (paid 500, no
  receipt), bill \<open>B2\<close> (paid 300) with a zero \<open>creation\<close> receipt \<open>R1\<close>, a zero \<open>payment\<close>
  receipt \<open>R2\<close>, a \<open>cancellation\<close> receipt \<open>R3\<close> of 100 and a zero receipt \<open>R5\<close> whose
  \<open>billingId\<close> is no bill's, and bill \<open>B4\<close> (paid 0) with a zero \<open>creation\<close> receipt \<open>R4\<close>.
\<close>

definition ex_env :: env where
  "ex_env = \<lparr> uuidv4 = (\<lambda>n. ''9b1deb4d-3b7d-4bad-9bdd-2b0d7b3dcb6d''),
              newObjectId = (\<lambda>n. 100 + n) \<rparr>"

definition bill_B1 :: bill where
  "bill_B1 = \<lparr> b_id = 1, b_billNumber = ''B1'',
     b_payment = \<lparr> paid = 500, p_type = ''cash'', cardNumber = None, utrNumber = None \<rparr>,
     b_status = ''paid'', b_date = 1700000000, b_createdBy = 7 \<rparr>"

definition bill_B2 :: bill where
  "bill_B2 = \<lparr> b_id = 2, b_billNumber = ''B2'',
     b_payment = \<lparr> paid = 300, p_type = ''card'', cardNumber = Some ''4111'', utrNumber = None \<rparr>,
     b_status = ''paid'', b_date = 1700000500, b_createdBy = 7 \<rparr>"

definition bill_B4 :: bill where
  "bill_B4 = \<lparr> b_id = 4, b_billNumber = ''B4'',
     b_payment = \<lparr> paid = 0, p_type = ''cash'', cardNumber = None, utrNumber = None \<rparr>,
     b_status = ''pending'', b_date = 1700000900, b_createdBy = 8 \<rparr>"

definition mk_receipt :: "oid \<Rightarrow> string \<Rightarrow> string \<Rightarrow> oid \<Rightarrow> string \<Rightarrow> int \<Rightarrow> receipt" where
  "mk_receipt i rn bn bi ty a =
     \<lparr> r_id = i, receiptNumber = rn, r_billNumber = bn, billingId = Some bi, r_type = ty,
       amount = a,
       r_paymentMethod = \<lparr> pm_type = ''cash'', pm_cardNumber = '''', pm_utrNumber = '''' \<rparr>,
       newStatus = ''paid'', remarks = '''', r_createdBy = 7, r_date = 1700000600 \<rparr>"

definition rec_R1 :: receipt where "rec_R1 = mk_receipt 11 ''R1'' ''B2'' 2 ''creation'' 0"

definition rec_R2 :: receipt where "rec_R2 = mk_receipt 12 ''R2'' ''B2'' 2 ''payment'' 0"

definition rec_R3 :: receipt where "rec_R3 = mk_receipt 13 ''R3'' ''B2'' 2 ''cancellation'' 100"

definition rec_R4 :: receipt where "rec_R4 = mk_receipt 14 ''R4'' ''B4'' 4 ''creation'' 0"

definition rec_R5 :: receipt where "rec_R5 = mk_receipt 15 ''R5'' ''B2'' 99 ''creation'' 0"

definition ledger :: db where
  "ledger = \<lparr> bills = [bill_B1, bill_B2, bill_B4],
               receipts = [rec_R1, rec_R2, rec_R3, rec_R4, rec_R5] \<rparr>"


definition bill_B3 :: bill where
  "bill_B3 = \<lparr> b_id = 3, b_billNumber = ''B3'',
     b_payment = \<lparr> paid = 250, p_type = ''upi'', cardNumber = None,
                   utrNumber = Some ''UTR42'' \<rparr>,
     b_status = ''partial'', b_date = 1700000700, b_createdBy = 9 \<rparr>"

definition db_unreceipted :: db where
  "db_unreceipted = \<lparr> bills = [bill_B1, bill_B2, bill_B3], receipts = [] \<rparr>"




definition db_B4 :: db where
  "db_B4 = \<lparr> bills = [bill_B4], receipts = [rec_R4] \<rparr>"

definition db_R3 :: db where
  "db_R3 = \<lparr> bills = [bill_B2], receipts = [rec_R3] \<rparr>"

section \<open>Faults: the earliest failing call\<close>

lemma first_fault_add:
  "first_fault F k (a + b) =
     (case first_fault F k a of Some e \<Rightarrow> Some e | None \<Rightarrow> first_fault F (k + a) b)"
  by (induction a arbitrary: k) (auto split: option.splits)

lemma first_fault_snoc:
  "first_fault F k (Suc n) =
     (case first_fault F k n of Some e \<Rightarrow> Some e | None \<Rightarrow> F (k + n))"
  using first_fault_add [of F k n 1] by (simp split: option.splits)

lemma first_fault_two:
  "first_fault F 0 (2 + n) =
     (case F 0 of Some e \<Rightarrow> Some e | None \<Rightarrow>
       (case F (Suc 0) of Some e \<Rightarrow> Some e | None \<Rightarrow> first_fault F 2 n))"
proof -
  have e2: "2 + n = Suc (Suc n)" by simp
  show ?thesis
    unfolding e2
    apply (subst first_fault.simps(2))
    apply (subst first_fault.simps(2))
    apply (simp add: numeral_2_eq_2 split: option.splits)
    done
qed

lemma first_fault_three:
  "first_fault F 0 (3 + n) =
     (case first_fault F 0 (2 + n) of Some e \<Rightarrow> Some e | None \<Rightarrow> F (2 + n))"
proof -
  have e3: "3 + n = Suc (2 + n)" by simp
  show ?thesis unfolding e3 by (subst first_fault_snoc) (simp split: option.splits)
qed

section \<open>The session of a handler\<close>

lemma begin_session_eq: "begin_session d = \<lparr> committed = d, session = InProgress d \<rparr>"
  by (simp add: begin_session_def startTransaction_def)

lemma snapshot_in_progress [simp]:
  "snapshot True \<lparr> committed = c, session = InProgress w \<rparr> = w"
  by (simp add: snapshot_def)

lemma write_in_progress [simp]:
  "write_receipts True f \<lparr> committed = c, session = InProgress w \<rparr> =
     \<lparr> committed = c, session = InProgress (w\<lparr>receipts := f (receipts w)\<rparr>) \<rparr>"
  by (simp add: write_receipts_def)

lemma abort_in_progress [simp]:
  "abortTransaction \<lparr> committed = c, session = InProgress w \<rparr> =
     Some \<lparr> committed = c, session = Idle \<rparr>"
  by (simp add: abortTransaction_def)

lemma abort_after_commit [simp]: "abortTransaction (commitThrown st) = None"
  by (simp add: abortTransaction_def commitThrown_def)

lemma commit_in_progress [simp]:
  "commitTransaction \<lparr> committed = c, session = InProgress w \<rparr> =
     \<lparr> committed = w, session = CommitAttempted \<rparr>"
  by (simp add: commitTransaction_def)

lemma committed_endSession [simp]: "committed (endSession st) = committed st"
  by (simp add: endSession_def)

lemma committed_commitThrown [simp]: "committed (commitThrown st) = committed st"
  by (simp add: commitThrown_def)

section \<open>createMissingReceipts in closed form\<close>

lemma create_loop_eq:
  "(case first_fault F k (length (filter (\<lambda>b. paid (b_payment b) > 0) bs)) of
      Some e \<Rightarrow>
        (\<exists>w'. create_loop E F k bs \<lparr> committed = c, session = InProgress w \<rparr> created
                 = Inl (e, \<lparr> committed = c, session = InProgress w' \<rparr>))
    | None \<Rightarrow>
        create_loop E F k bs \<lparr> committed = c, session = InProgress w \<rparr> created =
          Inr (k + length (filter (\<lambda>b. paid (b_payment b) > 0) bs),
               \<lparr> committed = c,
                 session = InProgress
                   (w\<lparr>receipts := receipts w @
                       map (\<lambda>(i, b). receiptData E i b)
                         (enumerate (length created)
                            (filter (\<lambda>b. paid (b_payment b) > 0) bs))\<rparr>) \<rparr>,
               created @
                 map (\<lambda>(i, b). receiptData E i b)
                   (enumerate (length created) (filter (\<lambda>b. paid (b_payment b) > 0) bs))))"
proof (induction bs arbitrary: k w created)
  case Nil
  then show ?case by simp
next
  case (Cons b bs)
  show ?case
  proof (cases "paid (b_payment b) > 0")
    case True
    show ?thesis
    proof (cases "F k")
      case None
      with True show ?thesis
        using Cons.IH [of "Suc k"
                "w\<lparr>receipts := receipts w @ [receiptData E (length created) b]\<rparr>"
                "created @ [receiptData E (length created) b]"]
        by (auto simp: Let_def split: option.splits)
    next
      case (Some e)
      with True show ?thesis by (simp add: Let_def)
    qed
  next
    case False
    then show ?thesis using Cons.IH [of k w created] by (simp split: option.splits)
  qed
qed

lemma createMissingReceipts_eq:
  "createMissingReceipts E F d =
     (let cands = filter (\<lambda>b. b_billNumber b \<notin> r_billNumber ` set (receipts d)
                               \<and> paid (b_payment b) > 0) (bills d);
          news = map (\<lambda>(i, b). receiptData E i b) (enumerate 0 cands)
      in case first_fault F 0 (3 + length cands) of
           Some e \<Rightarrow>
             (d, case first_fault F 0 (2 + length cands) of
                   None \<Rightarrow> NoResponse
                 | Some e' \<Rightarrow> Failure ''Error creating missing receipts'' e')
         | None \<Rightarrow>
            (d\<lparr>receipts := receipts d @ news\<rparr>,
             Created (''Successfully created '' @ show_nat (length news) @ '' missing receipts'')
               (length news) (length (bills d))))"
proof -
  define without where
    "without = filter (\<lambda>b. b_billNumber b \<notin> set (map r_billNumber (receipts d))) (bills d)"
  define cands where
    "cands = filter (\<lambda>b. b_billNumber b \<notin> r_billNumber ` set (receipts d)
                               \<and> paid (b_payment b) > 0) (bills d)"
  have cw: "filter (\<lambda>b. paid (b_payment b) > 0) without = cands"
    by (simp add: without_def cands_def)
  note loop = create_loop_eq [where F = F and k = 2 and bs = without and E = E and c = d
                 and w = d and created = "[]", unfolded cw]
  have try_eq: "create_try E F \<lparr> committed = d, session = InProgress d \<rparr> =
     (case F 0 of Some e \<Rightarrow> Inl (e, \<lparr> committed = d, session = InProgress d \<rparr>) | None \<Rightarrow>
       (case F (Suc 0) of Some e \<Rightarrow> Inl (e, \<lparr> committed = d, session = InProgress d \<rparr>) | None \<Rightarrow>
         (case create_loop E F 2 without \<lparr> committed = d, session = InProgress d \<rparr> [] of
             Inl (e, st1) \<Rightarrow> Inl (e, st1)
           | Inr (k, st1, createdReceipts) \<Rightarrow>
                 (case F k of
                    Some e \<Rightarrow> Inl (e, commitThrown st1)
                  | None \<Rightarrow>
                    Inr (commitTransaction st1,
                      Created
                        (''Successfully created '' @ show_nat (length createdReceipts)
                           @ '' missing receipts'')
                        (length createdReceipts) (length (bills d)))))))"
    by (simp add: create_try_def Let_def without_def split: option.splits)
  have main: "createMissingReceipts E F d =
      (case first_fault F 0 (3 + length cands) of
         None \<Rightarrow>
           (d\<lparr>receipts := receipts d @ map (\<lambda>(i, b). receiptData E i b) (enumerate 0 cands)\<rparr>,
            Created (''Successfully created '' @
                show_nat (length (map (\<lambda>(i, b). receiptData E i b) (enumerate 0 cands))) @
                '' missing receipts'')
              (length (map (\<lambda>(i, b). receiptData E i b) (enumerate 0 cands)))
              (length (bills d)))
       | Some e \<Rightarrow>
           (d, case first_fault F 0 (2 + length cands) of
                 None \<Rightarrow> NoResponse
               | Some e' \<Rightarrow> Failure ''Error creating missing receipts'' e'))"
  proof (cases "F 0")
    case (Some e)
    have ff2: "first_fault F 0 (2 + length cands) = Some e"
      unfolding first_fault_two Some by simp
    have ff3: "first_fault F 0 (3 + length cands) = Some e"
      unfolding first_fault_three ff2 by simp
    show ?thesis
      unfolding ff2 ff3
      by (simp add: createMissingReceipts_def begin_session_eq try_eq Some)
  next
    case F0: None
    show ?thesis
    proof (cases "F (Suc 0)")
      case (Some e)
      have ff2: "first_fault F 0 (2 + length cands) = Some e"
        unfolding first_fault_two F0 Some by simp
      have ff3: "first_fault F 0 (3 + length cands) = Some e"
        unfolding first_fault_three ff2 by simp
      show ?thesis
        unfolding ff2 ff3
        by (simp add: createMissingReceipts_def begin_session_eq try_eq F0 Some)
    next
      case F1: None
      show ?thesis
      proof (cases "first_fault F 2 (length cands)")
        case (Some e)
        with loop obtain w' where l:
          "create_loop E F 2 without \<lparr> committed = d, session = InProgress d \<rparr> [] =
             Inl (e, \<lparr> committed = d, session = InProgress w' \<rparr>)"
          by auto
        have ff2: "first_fault F 0 (2 + length cands) = Some e"
          unfolding first_fault_two F0 F1 Some by simp
        have ff3: "first_fault F 0 (3 + length cands) = Some e"
          unfolding first_fault_three ff2 by simp
        show ?thesis
          unfolding ff2 ff3
          by (simp add: createMissingReceipts_def begin_session_eq try_eq F0 F1 l)
      next
        case None
        with loop have l:
          "create_loop E F 2 without \<lparr> committed = d, session = InProgress d \<rparr> [] =
             Inr (2 + length cands,
               \<lparr> committed = d,
                 session = InProgress
                   (d\<lparr>receipts := receipts d @
                       map (\<lambda>(i, b). receiptData E i b) (enumerate 0 cands)\<rparr>) \<rparr>,
               map (\<lambda>(i, b). receiptData E i b) (enumerate 0 cands))"
          by simp
        have ff2: "first_fault F 0 (2 + length cands) = None"
          unfolding first_fault_two F0 F1 None by simp
        have c2: "2 + length cands = Suc (Suc (length cands))" by simp
        show ?thesis
        proof (cases "F (Suc (Suc (length cands)))")
          case commit: None
          have "first_fault F 0 (3 + length cands) = F (Suc (Suc (length cands)))"
            unfolding first_fault_three ff2 by simp
          with commit have ff3: "first_fault F 0 (3 + length cands) = None" by simp
          show ?thesis
            unfolding ff2 ff3
            by (simp add: createMissingReceipts_def begin_session_eq try_eq F0 F1 l commit)
        next
          case commit: (Some e)
          have "first_fault F 0 (3 + length cands) = F (Suc (Suc (length cands)))"
            unfolding first_fault_three ff2 by simp
          with commit have ff3: "first_fault F 0 (3 + length cands) = Some e" by simp
          show ?thesis
            unfolding ff2 ff3
            by (simp add: createMissingReceipts_def begin_session_eq try_eq F0 F1 l commit)
        qed
      qed
    qed
  qed
  show ?thesis
    unfolding Let_def cands_def [symmetric] using main by (simp split: option.splits)
qed


section \<open>The handlers in closed form\<close>

lemma fix_zero_loop_Cons:
  "fix_zero_loop F k (r # rs) st fixed =
     (case F k of
        Some e \<Rightarrow> Inl (e, st)
      | None \<Rightarrow>
         (case zero_fix (bills (snapshot True st)) r of
            None \<Rightarrow> fix_zero_loop F (Suc k) rs st fixed
          | Some c \<Rightarrow>
             (case F (Suc k) of
                Some e \<Rightarrow> Inl (e, st)
              | None \<Rightarrow>
                 fix_zero_loop F (Suc (Suc k)) rs
                   (write_receipts True (findByIdAndUpdate (r_id r) c) st)
                   (fixed @ [zero_fixed_entry r c]))))"
  by (simp add: zero_fix_def split: option.splits)

lemma fix_bill_loop_Cons:
  "fix_bill_loop F k billing (r # rs) st fixed =
     (case bill_fix billing r of
        None \<Rightarrow> fix_bill_loop F k billing rs st fixed
      | Some c \<Rightarrow>
         (case F k of
            Some e \<Rightarrow> Inl (e, st)
          | None \<Rightarrow>
             fix_bill_loop F (Suc k) billing rs
               (write_receipts True (findByIdAndUpdate (r_id r) c) st)
               (fixed @ [bill_fixed_entry r c])))"
  by (simp add: bill_fix_def Let_def split: option.splits)

lemma fix_zero_loop_eq:
  "(case first_fault F k (lookup_update_calls (zero_fix (bills w)) rs) of
      Some e \<Rightarrow>
        (\<exists>w'. fix_zero_loop F k rs \<lparr> committed = c, session = InProgress w \<rparr> fixed
                 = Inl (e, \<lparr> committed = c, session = InProgress w' \<rparr>))
    | None \<Rightarrow>
        fix_zero_loop F k rs \<lparr> committed = c, session = InProgress w \<rparr> fixed =
          Inr (k + lookup_update_calls (zero_fix (bills w)) rs,
               \<lparr> committed = c,
                 session = InProgress
                   (w\<lparr>receipts := apply_updates (zero_fix (bills w)) rs (receipts w)\<rparr>) \<rparr>,
               fixed @ fixed_entries zero_fixed_entry (zero_fix (bills w)) rs))"
proof (induction rs arbitrary: k w fixed)
  case Nil
  then show ?case by simp
next
  case (Cons r rs)
  show ?case
  proof (cases "zero_fix (bills w) r")
    case None
    then show ?thesis
      using Cons.IH [of "Suc k" w fixed]
      by (cases "F k") (auto simp: fix_zero_loop_Cons simp del: fix_zero_loop.simps(2) split: option.splits)
  next
    case (Some a)
    then show ?thesis
      using Cons.IH [of "Suc (Suc k)" "w\<lparr>receipts := findByIdAndUpdate (r_id r) a (receipts w)\<rparr>"
                        "fixed @ [zero_fixed_entry r a]"]
      by (cases "F k"; cases "F (Suc k)") (auto simp: fix_zero_loop_Cons simp del: fix_zero_loop.simps(2) split: option.splits)
  qed
qed

lemma fix_bill_loop_eq:
  "(case first_fault F k (update_calls (bill_fix billing) rs) of
      Some e \<Rightarrow>
        (\<exists>w'. fix_bill_loop F k billing rs \<lparr> committed = c, session = InProgress w \<rparr> fixed
                 = Inl (e, \<lparr> committed = c, session = InProgress w' \<rparr>))
    | None \<Rightarrow>
        fix_bill_loop F k billing rs \<lparr> committed = c, session = InProgress w \<rparr> fixed =
          Inr (k + update_calls (bill_fix billing) rs,
               \<lparr> committed = c,
                 session = InProgress
                   (w\<lparr>receipts := apply_updates (bill_fix billing) rs (receipts w)\<rparr>) \<rparr>,
               fixed @ fixed_entries bill_fixed_entry (bill_fix billing) rs))"
proof (induction rs arbitrary: k w fixed)
  case Nil
  then show ?case by simp
next
  case (Cons r rs)
  show ?case
  proof (cases "bill_fix billing r")
    case None
    then show ?thesis
      using Cons.IH [of k w fixed]
      by (auto simp: fix_bill_loop_Cons simp del: fix_bill_loop.simps(2) split: option.splits)
  next
    case (Some a)
    then show ?thesis
      using Cons.IH [of "Suc k" "w\<lparr>receipts := findByIdAndUpdate (r_id r) a (receipts w)\<rparr>"
                        "fixed @ [bill_fixed_entry r a]"]
      by (cases "F k") (auto simp: fix_bill_loop_Cons simp del: fix_bill_loop.simps(2) split: option.splits)
  qed
qed

lemma first_fault_no_faults [simp]: "first_fault no_faults k n = None"
  by (induction n arbitrary: k) (simp_all add: no_faults_def)

lemma first_fault_first:
  "F j = Some e \<Longrightarrow> \<forall>i<j. F i = None \<Longrightarrow> k \<le> j \<Longrightarrow> j < k + n
     \<Longrightarrow> first_fault F k n = Some e"
proof (induction n arbitrary: k)
  case 0
  then show ?case by simp
next
  case (Suc n)
  show ?case
  proof (cases "k = j")
    case True
    with Suc.prems show ?thesis by simp
  next
    case False
    with Suc.prems have "k < j" by simp
    with Suc.prems have "F k = None" by simp
    moreover have "first_fault F (Suc k) n = Some e"
      using Suc.prems \<open>k < j\<close> by (intro Suc.IH) simp_all
    ultimately show ?thesis by simp
  qed
qed

lemma first_fault_none:
  "\<forall>i<k + n. F i = None \<Longrightarrow> first_fault F k n = None"
  by (induction n arbitrary: k) simp_all

text \<open>
  What the end of every handler makes of its loop: the commit, the \<^verbatim>\<open>catch\<close> block
  with its abort, and the end of the session.
\<close>

lemma handler_tail:
  fixes LOOP :: "(string \<times> store) + (nat \<times> store \<times> 'a)"
  assumes "case ffl of
             Some e \<Rightarrow> (\<exists>w'. LOOP = Inl (e, \<lparr> committed = c, session = InProgress w' \<rparr>))
           | None \<Rightarrow> LOOP = Inr (kf, \<lparr> committed = c, session = InProgress wz \<rparr>, acc)"
  shows "(case (case LOOP of
                  Inl (e, st1) \<Rightarrow> Inl (e, st1)
                | Inr (k, st1, a) \<Rightarrow>
                    (case F k of
                       Some e \<Rightarrow> Inl (e, commitThrown st1)
                     | None \<Rightarrow> Inr (commitTransaction st1, R a))) of
            Inr (st, resp) \<Rightarrow> (committed (endSession st), resp)
          | Inl (e, st) \<Rightarrow>
              (case abortTransaction st of
                 None \<Rightarrow> (committed (endSession st), NoResponse)
               | Some st' \<Rightarrow> (committed (endSession st'), Failure msg e)))
       = (case ffl of
            Some e \<Rightarrow> (c, Failure msg e)
          | None \<Rightarrow>
              (case F kf of
                 Some e \<Rightarrow> (c, NoResponse)
               | None \<Rightarrow> (wz, R acc)))"
proof (cases ffl)
  case None
  with assms have "LOOP = Inr (kf, \<lparr> committed = c, session = InProgress wz \<rparr>, acc)"
    by simp
  with None show ?thesis by (cases "F kf") simp_all
next
  case (Some e)
  with assms obtain w' where "LOOP = Inl (e, \<lparr> committed = c, session = InProgress w' \<rparr>)"
    by auto
  with Some show ?thesis by simp
qed

lemma two_level:
  "(case ff of
      Some e \<Rightarrow> (d, Failure m e)
    | None \<Rightarrow> (case cm of Some e \<Rightarrow> (d, NoResponse) | None \<Rightarrow> ok))
   = (case (case ff of Some e \<Rightarrow> Some e | None \<Rightarrow> cm) of
        Some e \<Rightarrow> (d, case ff of None \<Rightarrow> NoResponse | Some e' \<Rightarrow> Failure m e')
      | None \<Rightarrow> ok)"
  by (cases ff; cases cm) simp_all

lemma fixZeroAmountReceipts_eq:
  "fixZeroAmountReceipts F d =
     (let zs = filter (\<lambda>r. amount r \<le> 0) (receipts d);
          dec = zero_fix (bills d);
          fixed = fixed_entries zero_fixed_entry dec zs
      in case first_fault F 0 (Suc (Suc (lookup_update_calls dec zs))) of
           Some e \<Rightarrow>
             (d, case first_fault F 0 (Suc (lookup_update_calls dec zs)) of
                   None \<Rightarrow> NoResponse
                 | Some e' \<Rightarrow> Failure ''Error fixing zero amount receipts'' e')
         | None \<Rightarrow>
            (d\<lparr>receipts := apply_updates dec zs (receipts d)\<rparr>,
             FixedZero (''Successfully fixed '' @ show_nat (length fixed) @ '' receipts'')
               fixed (length zs)))"
proof -
  define zs where "zs = filter (\<lambda>r. amount r \<le> 0) (receipts d)"
  define n where "n = lookup_update_calls (zero_fix (bills d)) zs"
  define fixed where "fixed = fixed_entries zero_fixed_entry (zero_fix (bills d)) zs"
  define ok where "ok = (d\<lparr>receipts := apply_updates (zero_fix (bills d)) zs (receipts d)\<rparr>,
             FixedZero (''Successfully fixed '' @ show_nat (length fixed) @ '' receipts'')
               fixed (length zs))"
  note loop = fix_zero_loop_eq [where F = F and k = "Suc 0" and rs = zs and c = d and w = d
                 and fixed = "[]", folded n_def]
  have tail: "(case (case fix_zero_loop F (Suc 0) zs
                           \<lparr> committed = d, session = InProgress d \<rparr> [] of
                  Inl (e, st1) \<Rightarrow> Inl (e, st1)
                | Inr (k, st1, a) \<Rightarrow>
                    (case F k of
                       Some e \<Rightarrow> Inl (e, commitThrown st1)
                     | None \<Rightarrow>
                        Inr (commitTransaction st1,
                          FixedZero (''Successfully fixed '' @ show_nat (length a)
                                       @ '' receipts'') a (length zs)))) of
            Inr (st, resp) \<Rightarrow> (committed (endSession st), resp)
          | Inl (e, st) \<Rightarrow>
              (case abortTransaction st of
                 None \<Rightarrow> (committed (endSession st), NoResponse)
               | Some st' \<Rightarrow>
                   (committed (endSession st'),
                    Failure ''Error fixing zero amount receipts'' e)))
       = (case first_fault F (Suc 0) n of
            Some e \<Rightarrow> (d, Failure ''Error fixing zero amount receipts'' e)
          | None \<Rightarrow>
              (case F (Suc n) of
                 Some e \<Rightarrow> (d, NoResponse)
               | None \<Rightarrow> ok))"
  proof -
    have loop': "case first_fault F (Suc 0) n of
        Some e \<Rightarrow>
          (\<exists>w'. fix_zero_loop F (Suc 0) zs \<lparr> committed = d, session = InProgress d \<rparr> []
                   = Inl (e, \<lparr> committed = d, session = InProgress w' \<rparr>))
      | None \<Rightarrow>
          fix_zero_loop F (Suc 0) zs \<lparr> committed = d, session = InProgress d \<rparr> [] =
            Inr (Suc n,
                 \<lparr> committed = d,
                   session = InProgress
                     (d\<lparr>receipts := apply_updates (zero_fix (bills d)) zs (receipts d)\<rparr>) \<rparr>,
                 fixed)"
      using loop by (simp add: fixed_def split: option.splits)
    show ?thesis
      unfolding ok_def
      by (rule handler_tail [where R = "\<lambda>a. FixedZero (''Successfully fixed ''
                   @ show_nat (length a) @ '' receipts'') a (length zs)", OF loop'])
  qed
  have two: "fixZeroAmountReceipts F d =
       (case first_fault F 0 (Suc n) of
            Some e \<Rightarrow> (d, Failure ''Error fixing zero amount receipts'' e)
          | None \<Rightarrow>
              (case F (Suc n) of
                 Some e \<Rightarrow> (d, NoResponse)
               | None \<Rightarrow> ok))"
  proof (cases "F 0")
    case (Some e)
    then show ?thesis
      by (simp add: fixZeroAmountReceipts_def fix_zero_try_def begin_session_eq)
  next
    case None
    have try_eq: "fix_zero_try F \<lparr> committed = d, session = InProgress d \<rparr> =
        (case fix_zero_loop F (Suc 0) zs \<lparr> committed = d, session = InProgress d \<rparr> [] of
           Inl (e, st1) \<Rightarrow> Inl (e, st1)
         | Inr (k, st1, a) \<Rightarrow>
             (case F k of
                Some e \<Rightarrow> Inl (e, commitThrown st1)
              | None \<Rightarrow>
                 Inr (commitTransaction st1,
                   FixedZero (''Successfully fixed '' @ show_nat (length a)
                                @ '' receipts'') a (length zs))))"
      using None
      by (simp add: fix_zero_try_def Let_def zs_def
            cong: sum.case_cong prod.case_cong option.case_cong)
    have ff: "first_fault F 0 (Suc n) = first_fault F (Suc 0) n" using None by simp
    show ?thesis
      unfolding fixZeroAmountReceipts_def begin_session_eq try_eq ff by (rule tail)
  qed
  have "first_fault F 0 (Suc (Suc n)) =
          (case first_fault F 0 (Suc n) of Some e \<Rightarrow> Some e | None \<Rightarrow> F (Suc n))"
    by (subst first_fault_snoc) (simp split: option.splits)
  then have "fixZeroAmountReceipts F d =
      (case first_fault F 0 (Suc (Suc n)) of
           Some e \<Rightarrow>
             (d, case first_fault F 0 (Suc n) of
                   None \<Rightarrow> NoResponse
                 | Some e' \<Rightarrow> Failure ''Error fixing zero amount receipts'' e')
         | None \<Rightarrow> ok)"
    unfolding two by (simp only: two_level)
  then show ?thesis
    unfolding Let_def zs_def [symmetric] n_def [symmetric] fixed_def [symmetric] ok_def .
qed


lemma fixSpecificBillReceipt_eq:
  "fixSpecificBillReceipt F billNumber d =
     (case find (\<lambda>b. b_billNumber b = billNumber) (bills d) of
        None \<Rightarrow>
          (case F 0 of
             Some e \<Rightarrow> (d, Failure (''Error fixing receipts for bill '' @ billNumber) e)
           | None \<Rightarrow> (d, NotFound (''Bill '' @ billNumber @ '' not found'')))
      | Some billing \<Rightarrow>
          (let rs = filter (\<lambda>r. r_billNumber r = billNumber) (receipts d);
               dec = bill_fix billing;
               fixed = fixed_entries bill_fixed_entry dec rs
           in case first_fault F 0 (Suc (Suc (Suc (update_calls dec rs)))) of
                Some e \<Rightarrow>
                  (d, case first_fault F 0 (Suc (Suc (update_calls dec rs))) of
                        None \<Rightarrow> NoResponse
                      | Some e' \<Rightarrow>
                          Failure (''Error fixing receipts for bill '' @ billNumber) e')
              | None \<Rightarrow>
                 (d\<lparr>receipts := apply_updates dec rs (receipts d)\<rparr>,
                  FixedBill (''Fixed '' @ show_nat (length fixed) @ '' receipts for bill ''
                               @ billNumber)
                    billNumber fixed)))"
proof (cases "find (\<lambda>b. b_billNumber b = billNumber) (bills d)")
  case None
  then show ?thesis
    by (cases "F 0")
       (simp_all add: fixSpecificBillReceipt_def fix_bill_try_def begin_session_eq)
next
  case (Some billing)
  define rs where "rs = filter (\<lambda>r. r_billNumber r = billNumber) (receipts d)"
  define n where "n = update_calls (bill_fix billing) rs"
  define fixed where "fixed = fixed_entries bill_fixed_entry (bill_fix billing) rs"
  define msg where "msg = ''Error fixing receipts for bill '' @ billNumber"
  define ok where "ok = (d\<lparr>receipts := apply_updates (bill_fix billing) rs (receipts d)\<rparr>,
                  FixedBill (''Fixed '' @ show_nat (length fixed) @ '' receipts for bill ''
                               @ billNumber)
                    billNumber fixed)"
  note loop = fix_bill_loop_eq [where F = F and k = 2 and billing = billing and rs = rs
                 and c = d and w = d and fixed = "[]", folded n_def]
  have loop': "case first_fault F 2 n of
        Some e \<Rightarrow>
          (\<exists>w'. fix_bill_loop F 2 billing rs \<lparr> committed = d, session = InProgress d \<rparr> []
                   = Inl (e, \<lparr> committed = d, session = InProgress w' \<rparr>))
      | None \<Rightarrow>
          fix_bill_loop F 2 billing rs \<lparr> committed = d, session = InProgress d \<rparr> [] =
            Inr (Suc (Suc n),
                 \<lparr> committed = d,
                   session = InProgress
                     (d\<lparr>receipts := apply_updates (bill_fix billing) rs (receipts d)\<rparr>) \<rparr>,
                 fixed)"
    using loop by (simp add: fixed_def split: option.splits)
  have tail: "(case (case fix_bill_loop F 2 billing rs
                           \<lparr> committed = d, session = InProgress d \<rparr> [] of
                  Inl (e, st1) \<Rightarrow> Inl (e, st1)
                | Inr (k, st1, a) \<Rightarrow>
                    (case F k of
                       Some e \<Rightarrow> Inl (e, commitThrown st1)
                     | None \<Rightarrow>
                        Inr (commitTransaction st1,
                          FixedBill (''Fixed '' @ show_nat (length a)
                                       @ '' receipts for bill '' @ billNumber)
                            billNumber a))) of
            Inr (st, resp) \<Rightarrow> (committed (endSession st), resp)
          | Inl (e, st) \<Rightarrow>
              (case abortTransaction st of
                 None \<Rightarrow> (committed (endSession st), NoResponse)
               | Some st' \<Rightarrow> (committed (endSession st'), Failure msg e)))
       = (case first_fault F 2 n of
            Some e \<Rightarrow> (d, Failure msg e)
          | None \<Rightarrow>
              (case F (Suc (Suc n)) of
                 Some e \<Rightarrow> (d, NoResponse)
               | None \<Rightarrow> ok))"
    unfolding ok_def
    by (rule handler_tail [where R = "\<lambda>a. FixedBill (''Fixed '' @ show_nat (length a)
                 @ '' receipts for bill '' @ billNumber) billNumber a", OF loop'])
  have two: "fixSpecificBillReceipt F billNumber d =
       (case first_fault F 0 (Suc (Suc n)) of
            Some e \<Rightarrow> (d, Failure msg e)
          | None \<Rightarrow>
              (case F (Suc (Suc n)) of
                 Some e \<Rightarrow> (d, NoResponse)
               | None \<Rightarrow> ok))"
  proof (cases "F 0")
    case (Some e)
    then show ?thesis
      by (simp add: fixSpecificBillReceipt_def fix_bill_try_def begin_session_eq msg_def)
  next
    case F0: None
    show ?thesis
    proof (cases "F (Suc 0)")
      case (Some e)
      with F0 \<open>find (\<lambda>b. b_billNumber b = billNumber) (bills d) = Some billing\<close>
      show ?thesis
        by (simp add: fixSpecificBillReceipt_def fix_bill_try_def begin_session_eq msg_def)
    next
      case F1: None
      have try_eq: "fix_bill_try F billNumber \<lparr> committed = d, session = InProgress d \<rparr> =
        (case fix_bill_loop F 2 billing rs \<lparr> committed = d, session = InProgress d \<rparr> [] of
           Inl (e, st1) \<Rightarrow> Inl (e, st1)
         | Inr (k, st1, a) \<Rightarrow>
             (case F k of
                Some e \<Rightarrow> Inl (e, commitThrown st1)
              | None \<Rightarrow>
                 Inr (commitTransaction st1,
                   FixedBill (''Fixed '' @ show_nat (length a)
                                @ '' receipts for bill '' @ billNumber)
                     billNumber a)))"
        using F0 F1 \<open>find (\<lambda>b. b_billNumber b = billNumber) (bills d) = Some billing\<close>
        by (simp add: fix_bill_try_def Let_def rs_def
              cong: sum.case_cong prod.case_cong option.case_cong)
      have ff: "first_fault F 0 (Suc (Suc n)) = first_fault F 2 n"
        using F0 F1 by (simp add: numeral_2_eq_2)
      show ?thesis
        unfolding fixSpecificBillReceipt_def begin_session_eq try_eq ff msg_def [symmetric]
        by (rule tail)
    qed
  qed
  have "first_fault F 0 (Suc (Suc (Suc n))) =
          (case first_fault F 0 (Suc (Suc n)) of Some e \<Rightarrow> Some e | None \<Rightarrow> F (Suc (Suc n)))"
    by (subst first_fault_snoc) (simp split: option.splits)
  then have "fixSpecificBillReceipt F billNumber d =
      (case first_fault F 0 (Suc (Suc (Suc n))) of
           Some e \<Rightarrow>
             (d, case first_fault F 0 (Suc (Suc n)) of
                   None \<Rightarrow> NoResponse
                 | Some e' \<Rightarrow> Failure msg e')
         | None \<Rightarrow> ok)"
    unfolding two by (simp only: two_level)
  then show ?thesis
    unfolding Some option.case Let_def rs_def [symmetric] n_def [symmetric]
      fixed_def [symmetric] ok_def msg_def .
qed

lemma create_calls_eq:
  "create_calls E d =
     3 + length (filter (\<lambda>b. b_billNumber b \<notin> r_billNumber ` set (receipts d)
                               \<and> paid (b_payment b) > 0) (bills d))"
  using create_loop_eq [where F = no_faults and k = 2 and E = E and c = d and w = d
          and created = "[]"
          and bs = "filter (\<lambda>b. b_billNumber b \<notin> set (map r_billNumber (receipts d)))
                      (bills d)"]
  by (simp add: create_calls_def begin_session_eq)

lemma fix_zero_calls_eq:
  "fix_zero_calls d =
     Suc (Suc (lookup_update_calls (zero_fix (bills d))
                 (filter (\<lambda>r. amount r \<le> 0) (receipts d))))"
  using fix_zero_loop_eq [where F = no_faults and k = 1 and c = d and w = d
          and fixed = "[]" and rs = "filter (\<lambda>r. amount r \<le> 0) (receipts d)"]
  by (simp add: fix_zero_calls_def begin_session_eq)

lemma fix_bill_calls_eq:
  "fix_bill_calls billNumber d =
     (case find (\<lambda>b. b_billNumber b = billNumber) (bills d) of
        None \<Rightarrow> 1
      | Some billing \<Rightarrow>
          Suc (Suc (Suc (update_calls (bill_fix billing)
                 (filter (\<lambda>r. r_billNumber r = billNumber) (receipts d))))))"
proof (cases "find (\<lambda>b. b_billNumber b = billNumber) (bills d)")
  case None
  then show ?thesis by (simp add: fix_bill_calls_def)
next
  case (Some billing)
  then show ?thesis
    using fix_bill_loop_eq [where F = no_faults and k = 2 and c = d and w = d
            and billing = billing and fixed = "[]"
            and rs = "filter (\<lambda>r. r_billNumber r = billNumber) (receipts d)"]
    by (simp add: fix_bill_calls_def begin_session_eq)
qed



section \<open>Receipts built by createMissingReceipts\<close>

lemma map_receiptData_nth:
  "i < length bs \<Longrightarrow>
     map (\<lambda>(i, b). receiptData E i b) (enumerate n bs) ! i = receiptData E (n + i) (bs ! i)"
  by (simp add: nth_enumerate_eq)

lemma map_receiptData_billNumbers:
  "map r_billNumber (map (\<lambda>(i, b). receiptData E i b) (enumerate n bs)) = map b_billNumber bs"
  by (induction bs arbitrary: n) (simp_all add: receiptData_def)

lemma no_fault_below: "\<forall>k<n. F k = None \<Longrightarrow> first_fault F 0 n = None"
  by (rule first_fault_none) simp

section \<open>The audit report in closed form\<close>

lemma get_or_empty_upd:
  "get_or_empty (m(k \<mapsto> v)) k' = (if k' = k then v else get_or_empty m k')"
  by (simp add: get_or_empty_def)

lemma receiptsByBillNumber_get:
  "get_or_empty (receiptsByBillNumber rs m) k =
     get_or_empty m k @ filter (\<lambda>r. r_billNumber r = k) rs"
  by (induction rs arbitrary: m) (auto simp: get_or_empty_upd)

lemma receiptsByBillNumber_empty:
  "get_or_empty (receiptsByBillNumber rs Map.empty) k = filter (\<lambda>r. r_billNumber r = k) rs"
  by (simp add: receiptsByBillNumber_get) (simp add: get_or_empty_def)

lemma check_bills_fields:
  "totalBills (check_bills m bs rep) = totalBills rep"
  "totalReceipts (check_bills m bs rep) = totalReceipts rep"
  "orphanedReceipts (check_bills m bs rep) = orphanedReceipts rep"
  by (induction bs arbitrary: rep) (simp_all add: Let_def)


lemma check_bills_zero:
  "zeroAmountReceipts (check_bills m bs rep) =
     zeroAmountReceipts rep @
       concat (map (\<lambda>b. map (zero_entry b)
                      (filter (\<lambda>r. amount r \<le> 0 \<and> paid (b_payment b) > 0)
                         (get_or_empty m (b_billNumber b)))) bs)"
  by (induction bs arbitrary: rep) (simp_all add: Let_def)


lemma audit_report_zero:
  "zeroAmountReceipts (audit_report bs rs) =
     concat (map (\<lambda>b. map (zero_entry b)
                    (filter (\<lambda>r. r_billNumber r = b_billNumber b \<and> amount r \<le> 0
                                 \<and> paid (b_payment b) > 0) rs)) bs)"
proof -
  have "\<And>b. filter (\<lambda>r. amount r \<le> 0 \<and> paid (b_payment b) > 0)
               (filter (\<lambda>r. r_billNumber r = b_billNumber b) rs) =
             filter (\<lambda>r. r_billNumber r = b_billNumber b \<and> amount r \<le> 0
                                 \<and> paid (b_payment b) > 0) rs"
    by simp
  then show ?thesis
    by (simp add: audit_report_def Let_def check_bills_zero receiptsByBillNumber_empty)
qed

lemma show_nat_0: "show_nat 0 = ''0''"
  by code_simp

lemmas eval_audit = audit_report_def missing_entry_def zero_entry_def duplicate_entry_def
  orphan_entry_def get_or_empty_def getReceiptAuditReport_def Let_def no_faults_def

section \<open>Writes of a correction pass\<close>

lemma distinct_map_head:
  assumes "distinct (map f (y # s))" and "x \<in> set s"
  shows "f x \<noteq> f y"
proof
  assume "f x = f y"
  moreover from assms(2) have "f x \<in> f ` set s" by (rule imageI)
  ultimately have "f y \<in> f ` set s" by simp
  with assms(1) show False by simp
qed

lemma findByIdAndUpdate_ids: "map r_id (findByIdAndUpdate i a s) = map r_id s"
  by (induction s) simp_all

lemma findByIdAndUpdate_frame:
  "map (\<lambda>x. x\<lparr>amount := 0\<rparr>) (findByIdAndUpdate i a s) = map (\<lambda>x. x\<lparr>amount := 0\<rparr>) s"
  by (induction s) simp_all

lemma findByIdAndUpdate_set:
  "x \<in> set (findByIdAndUpdate i a s) \<Longrightarrow> x \<in> set s \<or> amount x = a"
  by (induction s) (auto split: if_splits)

lemma findByIdAndUpdate_map:
  "distinct (map r_id s) \<Longrightarrow>
     findByIdAndUpdate i a s = map (\<lambda>x. if r_id x = i then x\<lparr>amount := a\<rparr> else x) s"
proof (induction s)
  case Nil
  then show ?case by simp
next
  case (Cons y s)
  show ?case
  proof (cases "r_id y = i")
    case True
    have "\<forall>x\<in>set s. r_id x \<noteq> i"
      using distinct_map_head [OF Cons.prems] True by metis
    then have "map (\<lambda>x. if r_id x = i then x\<lparr>amount := a\<rparr> else x) s = s"
      by (simp add: map_idI)
    with True show ?thesis by simp
  next
    case False
    with Cons show ?thesis by simp
  qed
qed

lemma apply_updates_ids: "map r_id (apply_updates dec rs s) = map r_id s"
  by (induction rs arbitrary: s) (simp_all add: findByIdAndUpdate_ids split: option.splits)

lemma apply_updates_frame:
  "map (\<lambda>x. x\<lparr>amount := 0\<rparr>) (apply_updates dec rs s) = map (\<lambda>x. x\<lparr>amount := 0\<rparr>) s"
  by (induction rs arbitrary: s) (simp_all add: findByIdAndUpdate_frame split: option.splits)

lemma apply_updates_positive:
  assumes "\<And>r c. dec r = Some c \<Longrightarrow> 0 < c"
  shows "x \<in> set (apply_updates dec rs s) \<Longrightarrow> x \<in> set s \<or> 0 < amount x"
proof (induction rs arbitrary: s)
  case Nil
  then show ?case by simp
next
  case (Cons r rs)
  show ?case
  proof (cases "dec r")
    case None
    with Cons show ?thesis by simp
  next
    case (Some c)
    with Cons.prems have "x \<in> set (apply_updates dec rs (findByIdAndUpdate (r_id r) c s))"
      by simp
    then have "x \<in> set (findByIdAndUpdate (r_id r) c s) \<or> 0 < amount x"
      by (rule Cons.IH)
    then show ?thesis
      using findByIdAndUpdate_set [of x "r_id r" c s] assms [OF Some] by auto
  qed
qed

lemma apply_updates_map:
  "distinct (map r_id s) \<Longrightarrow> distinct (map r_id rs) \<Longrightarrow> set rs \<subseteq> set s \<Longrightarrow>
     apply_updates dec rs s = map (\<lambda>x. if x \<in> set rs then corrected dec x else x) s"
proof (induction rs arbitrary: s)
  case Nil
  then show ?case by simp
next
  case (Cons r rs)
  define s1 where "s1 = (case dec r of None \<Rightarrow> s | Some c \<Rightarrow> findByIdAndUpdate (r_id r) c s)"
  have s1: "s1 = map (\<lambda>x. if r_id x = r_id r then corrected dec r else x) s"
  proof (cases "dec r")
    case None
    have "\<forall>x\<in>set s. r_id x = r_id r \<longrightarrow> x = r"
      using Cons.prems(1,3) by (auto simp: distinct_map inj_on_def)
    then have m: "map (\<lambda>x. if r_id x = r_id r then r else x) s = s"
      by (intro map_idI) auto
    have cr: "corrected dec r = r" using None by (simp add: corrected_def)
    have "s1 = s" by (simp add: s1_def None)
    also have "s = map (\<lambda>x. if r_id x = r_id r then r else x) s"
      using m by (rule sym)
    finally show ?thesis unfolding cr .
  next
    case (Some c)
    have "\<forall>x\<in>set s. r_id x = r_id r \<longrightarrow> x = r"
      using Cons.prems(1,3) by (auto simp: distinct_map inj_on_def)
    then have "map (\<lambda>x. if r_id x = r_id r then x\<lparr>amount := c\<rparr> else x) s =
               map (\<lambda>x. if r_id x = r_id r then r\<lparr>amount := c\<rparr> else x) s"
      by (intro map_cong) auto
    with Some Cons.prems(1) show ?thesis
      by (simp add: s1_def corrected_def findByIdAndUpdate_map)
  qed
  have ids: "map r_id s1 = map r_id s"
    by (simp add: s1_def findByIdAndUpdate_ids split: option.splits)
  have rs_ids: "\<forall>x\<in>set rs. r_id x \<noteq> r_id r"
    using distinct_map_head [OF Cons.prems(2)] by metis
  have d1: "distinct (map r_id s1)" using Cons.prems(1) ids by simp
  have d2: "distinct (map r_id rs)" using Cons.prems(2) by simp
  have sub: "set rs \<subseteq> set s1"
  proof
    fix x assume x: "x \<in> set rs"
    with Cons.prems(3) have "x \<in> set s" by auto
    moreover from x rs_ids have "r_id x \<noteq> r_id r" by simp
    ultimately show "x \<in> set s1" unfolding s1 by force
  qed
  have cr: "r_id (corrected dec r) = r_id r"
    by (simp add: corrected_def split: option.splits)
  have "apply_updates dec (r # rs) s = apply_updates dec rs s1"
    by (simp add: s1_def)
  also have "\<dots> = map (\<lambda>x. if x \<in> set rs then corrected dec x else x) s1"
    using d1 d2 sub by (rule Cons.IH)
  also have "\<dots> = map (\<lambda>x. if x \<in> set (r # rs) then corrected dec x else x) s"
    unfolding s1 map_map comp_def
  proof (rule map_cong [OF refl])
    fix x assume xs: "x \<in> set s"
    show "(if (if r_id x = r_id r then corrected dec r else x) \<in> set rs
           then corrected dec (if r_id x = r_id r then corrected dec r else x)
           else (if r_id x = r_id r then corrected dec r else x)) =
          (if x \<in> set (r # rs) then corrected dec x else x)"
    proof (cases "r_id x = r_id r")
      case True
      with xs Cons.prems(1,3) have "x = r" by (auto simp: distinct_map inj_on_def)
      moreover have "corrected dec r \<notin> set rs" using rs_ids cr by metis
      ultimately show ?thesis by simp
    next
      case False
      then have "x \<noteq> r" by auto
      with False show ?thesis by simp
    qed
  qed
  finally show ?case .
qed

lemma apply_updates_filter:
  assumes "distinct (map r_id s)"
  shows "apply_updates dec (filter P s) s = map (\<lambda>x. if P x then corrected dec x else x) s"
proof -
  have "apply_updates dec (filter P s) s =
          map (\<lambda>x. if x \<in> set (filter P s) then corrected dec x else x) s"
    using assms by (intro apply_updates_map) (simp_all add: distinct_map_filter)
  also have "\<dots> = map (\<lambda>x. if P x then corrected dec x else x) s"
    by (rule map_cong) simp_all
  finally show ?thesis .
qed

lemma find_by_id_map:
  assumes "distinct (map r_id s)" and "r \<in> set s" and "\<And>x. r_id (g x) = r_id x"
  shows "find (\<lambda>x. r_id x = r_id r) (map g s) = Some (g r)"
  using assms(1,2)
proof (induction s)
  case Nil
  then show ?case by simp
next
  case (Cons y s)
  show ?case
  proof (cases "y = r")
    case True
    then show ?thesis by (simp add: assms(3))
  next
    case False
    with Cons.prems have rs: "r \<in> set s" by auto
    then have "r_id y \<noteq> r_id r"
      using distinct_map_head [OF Cons.prems(1)] by metis
    with rs Cons show ?thesis by (simp add: assms(3))
  qed
qed

lemma corrected_id [simp]: "r_id (corrected dec x) = r_id x"
  by (simp add: corrected_def split: option.splits)

section \<open>Records of a correction pass\<close>

lemma fixed_entries_set:
  "set (fixed_entries mk dec rs) = {mk r c | r c. r \<in> set rs \<and> dec r = Some c}"
  by (induction rs) (auto split: option.splits)

lemma fixed_entries_none:
  assumes "\<And>r c. p (mk r c) = receiptNumber r"
    and "\<forall>x\<in>set rs. receiptNumber x = n \<longrightarrow> dec x = None"
  shows "filter (\<lambda>f. p f = n) (fixed_entries mk dec rs) = []"
  using assms(2) by (induction rs) (auto simp: assms(1) split: option.splits)

lemma fixed_entries_one:
  assumes "\<And>r c. p (mk r c) = receiptNumber r"
  shows "distinct (map receiptNumber rs) \<Longrightarrow> r \<in> set rs \<Longrightarrow> dec r = Some c \<Longrightarrow>
           filter (\<lambda>f. p f = receiptNumber r) (fixed_entries mk dec rs) = [mk r c]"
proof (induction rs)
  case Nil
  then show ?case by simp
next
  case (Cons y rs)
  show ?case
  proof (cases "y = r")
    case True
    have "\<forall>x\<in>set rs. receiptNumber x \<noteq> receiptNumber r"
      using distinct_map_head [OF Cons.prems(1)] True by metis
    then have "filter (\<lambda>f. p f = receiptNumber r) (fixed_entries mk dec rs) = []"
      by (intro fixed_entries_none [where p = p, OF assms]) simp
    with True Cons.prems show ?thesis by (simp add: assms)
  next
    case False
    with Cons.prems have rs: "r \<in> set rs" by auto
    then have "receiptNumber y \<noteq> receiptNumber r"
      using distinct_map_head [OF Cons.prems(1)] by metis
    with rs Cons show ?thesis by (simp add: assms split: option.splits)
  qed
qed

section \<open>One receipt through a correction pass\<close>

lemma pass_untouched:
  assumes "distinct (map r_id s)" and "r \<in> set s" and "P r \<longrightarrow> dec r = None"
  shows "find (\<lambda>x. r_id x = r_id r) (apply_updates dec (filter P s) s) = Some r"
proof -
  have "find (\<lambda>x. r_id x = r_id r) (map (\<lambda>x. if P x then corrected dec x else x) s)
          = Some (if P r then corrected dec r else r)"
    using assms(1,2) by (rule find_by_id_map) simp
  moreover have "(if P r then corrected dec r else r) = r"
    using assms(3) by (simp add: corrected_def)
  ultimately show ?thesis
    by (simp only: apply_updates_filter [OF assms(1)])
qed

lemma pass_written:
  assumes "distinct (map r_id s)" and "r \<in> set s" and "P r" and "dec r = Some c"
  shows "find (\<lambda>x. r_id x = r_id r) (apply_updates dec (filter P s) s)
           = Some (r\<lparr>amount := c\<rparr>)"
proof -
  have "find (\<lambda>x. r_id x = r_id r) (map (\<lambda>x. if P x then corrected dec x else x) s)
          = Some (if P r then corrected dec r else r)"
    using assms(1,2) by (rule find_by_id_map) simp
  moreover have "(if P r then corrected dec r else r) = r\<lparr>amount := c\<rparr>"
    using assms(3,4) by (simp add: corrected_def)
  ultimately show ?thesis
    by (simp only: apply_updates_filter [OF assms(1)])
qed

lemma distinct_map_eq:
  assumes "distinct (map f s)" and "x \<in> set s" and "y \<in> set s" and "f x = f y"
  shows "x = y"
  using assms by (auto simp: distinct_map inj_on_def)

lemma pass_unlisted:
  assumes "\<And>r c. p (mk r c) = receiptNumber r"
    and "distinct (map receiptNumber s)" and "r \<in> set s" and "P r \<longrightarrow> dec r = None"
  shows "filter (\<lambda>f. p f = receiptNumber r) (fixed_entries mk dec (filter P s)) = []"
proof (rule fixed_entries_none [where p = p, OF assms(1)], intro ballI impI)
  fix x assume x: "x \<in> set (filter P s)" and n: "receiptNumber x = receiptNumber r"
  then have "x \<in> set s" "P x" by simp_all
  with assms(2,3) n have "x = r" by (metis distinct_map_eq)
  with \<open>P x\<close> assms(4) show "dec x = None" by simp
qed

lemma pass_listed:
  assumes "\<And>r c. p (mk r c) = receiptNumber r"
    and "distinct (map receiptNumber s)" and "r \<in> set s" and "P r" and "dec r = Some c"
  shows "filter (\<lambda>f. p f = receiptNumber r) (fixed_entries mk dec (filter P s)) = [mk r c]"
proof (rule fixed_entries_one [where p = p, OF assms(1)])
  show "distinct (map receiptNumber (filter P s))"
    using assms(2) by (rule distinct_map_filter)
  show "r \<in> set (filter P s)" using assms(3,4) by simp
  show "dec r = Some c" by fact
qed

lemma pass_frame_nth:
  assumes "i < length s"
  shows "(apply_updates dec rs s ! i)\<lparr>amount := amount (s ! i)\<rparr> = s ! i"
proof -
  have len: "length (apply_updates dec rs s) = length s"
    using arg_cong [OF apply_updates_ids [of dec rs s], of length] by simp
  have "map (\<lambda>x. x\<lparr>amount := 0\<rparr>) (apply_updates dec rs s) ! i
          = map (\<lambda>x. x\<lparr>amount := 0\<rparr>) s ! i"
    by (simp only: apply_updates_frame)
  then have "(apply_updates dec rs s ! i)\<lparr>amount := 0\<rparr> = (s ! i)\<lparr>amount := 0\<rparr>"
    using assms len by simp
  then have "(apply_updates dec rs s ! i)\<lparr>amount := 0\<rparr>\<lparr>amount := amount (s ! i)\<rparr>
               = (s ! i)\<lparr>amount := 0\<rparr>\<lparr>amount := amount (s ! i)\<rparr>"
    by (rule arg_cong)
  then show ?thesis by simp
qed

lemma pass_length: "length (apply_updates dec rs s) = length s"
  using arg_cong [OF apply_updates_ids [of dec rs s], of length] by simp

lemma pass_changed_nth:
  assumes "distinct (map r_id s)" and "i < length s"
    and "apply_updates dec (filter P s) s ! i \<noteq> s ! i"
  shows "P (s ! i) \<and> (\<exists>c. dec (s ! i) = Some c \<and> c \<noteq> amount (s ! i)
            \<and> apply_updates dec (filter P s) s ! i = (s ! i)\<lparr>amount := c\<rparr>)"
proof -
  have eq: "apply_updates dec (filter P s) s ! i =
              (if P (s ! i) then corrected dec (s ! i) else s ! i)"
    using assms(2) by (simp only: apply_updates_filter [OF assms(1)]) simp
  with assms(3) have P: "P (s ! i)" and ne: "corrected dec (s ! i) \<noteq> s ! i"
    by (auto split: if_splits)
  from ne obtain c where c: "dec (s ! i) = Some c"
    by (cases "dec (s ! i)") (simp_all add: corrected_def)
  with ne have "c \<noteq> amount (s ! i)"
    by (auto simp: corrected_def)
  with P c eq show ?thesis by (simp add: corrected_def)
qed

section \<open>Outcomes of the two correction handlers\<close>

lemma fixZero_outcome:
  assumes "fixZeroAmountReceipts F d = (d', resp)"
  shows "(d' = d \<and> zero_fixed resp = [] \<and> \<not> success resp)
       \<or> (d' = d\<lparr>receipts := apply_updates (zero_fix (bills d))
                                 (filter (\<lambda>r. amount r \<le> 0) (receipts d)) (receipts d)\<rparr>
          \<and> zero_fixed resp = fixed_entries zero_fixed_entry (zero_fix (bills d))
                                 (filter (\<lambda>r. amount r \<le> 0) (receipts d))
          \<and> success resp)"
  using assms unfolding fixZeroAmountReceipts_eq Let_def
  by (auto split: option.splits)

lemma fixBill_outcome:
  assumes "fixSpecificBillReceipt F billNumber d = (d', resp)"
  shows "(d' = d \<and> bill_fixed resp = [] \<and> \<not> success resp)
       \<or> (\<exists>billing. find (\<lambda>b. b_billNumber b = billNumber) (bills d) = Some billing
          \<and> d' = d\<lparr>receipts := apply_updates (bill_fix billing)
                                 (filter (\<lambda>r. r_billNumber r = billNumber) (receipts d))
                                 (receipts d)\<rparr>
          \<and> bill_fixed resp = fixed_entries bill_fixed_entry (bill_fix billing)
                                 (filter (\<lambda>r. r_billNumber r = billNumber) (receipts d))
          \<and> success resp)"
  using assms unfolding fixSpecificBillReceipt_eq Let_def
  by (auto split: option.splits)

lemma find_self:
  assumes "distinct (map r_id s)" and "r \<in> set s"
  shows "find (\<lambda>x. r_id x = r_id r) s = Some r"
  using find_by_id_map [OF assms, of "\<lambda>x. x"] by simp

lemma fixZero_skips:
  assumes "distinct (map r_id (receipts d))" and "distinct (map receiptNumber (receipts d))"
    and "r \<in> set (receipts d)" and "amount r \<le> 0 \<longrightarrow> zero_fix (bills d) r = None"
    and "fixZeroAmountReceipts F d = (d', resp)"
  shows "find (\<lambda>x. r_id x = r_id r) (receipts d') = Some r
       \<and> filter (\<lambda>f. fr_receiptNumber f = receiptNumber r) (zero_fixed resp) = []"
  using fixZero_outcome [OF assms(5)]
proof (elim disjE conjE)
  assume "d' = d" "zero_fixed resp = []"
  then show ?thesis using find_self [OF assms(1,3)] by simp
next
  assume d': "d' = d\<lparr>receipts := apply_updates (zero_fix (bills d))
                                 (filter (\<lambda>r. amount r \<le> 0) (receipts d)) (receipts d)\<rparr>"
    and zf: "zero_fixed resp = fixed_entries zero_fixed_entry (zero_fix (bills d))
                                 (filter (\<lambda>r. amount r \<le> 0) (receipts d))"
  have "find (\<lambda>x. r_id x = r_id r) (receipts d') = Some r"
    unfolding d' using pass_untouched [where P = "\<lambda>r. amount r \<le> 0" and dec = "zero_fix (bills d)",
            OF assms(1,3,4)]
    by simp
  moreover have "filter (\<lambda>f. fr_receiptNumber f = receiptNumber r) (zero_fixed resp) = []"
    unfolding zf
    using pass_unlisted [where p = fr_receiptNumber and mk = zero_fixed_entry
            and P = "\<lambda>r. amount r \<le> 0" and dec = "zero_fix (bills d)"
            and s = "receipts d" and r = r] assms(2,3,4)
    by (simp add: zero_fixed_entry_def)
  ultimately show ?thesis by simp
qed

lemma fixZero_writes:
  assumes "distinct (map r_id (receipts d))" and "distinct (map receiptNumber (receipts d))"
    and "r \<in> set (receipts d)" and "amount r \<le> 0" and "zero_fix (bills d) r = Some c"
    and "fixZeroAmountReceipts F d = (d', resp)" and "success resp"
  shows "find (\<lambda>x. r_id x = r_id r) (receipts d') = Some (r\<lparr>amount := c\<rparr>)
       \<and> filter (\<lambda>f. fr_receiptNumber f = receiptNumber r) (zero_fixed resp)
           = [zero_fixed_entry r c]"
  using fixZero_outcome [OF assms(6)]
proof (elim disjE conjE)
  assume "\<not> success resp"
  with assms(7) show ?thesis by simp
next
  assume d': "d' = d\<lparr>receipts := apply_updates (zero_fix (bills d))
                                 (filter (\<lambda>r. amount r \<le> 0) (receipts d)) (receipts d)\<rparr>"
    and zf: "zero_fixed resp = fixed_entries zero_fixed_entry (zero_fix (bills d))
                                 (filter (\<lambda>r. amount r \<le> 0) (receipts d))"
  have "find (\<lambda>x. r_id x = r_id r) (receipts d') = Some (r\<lparr>amount := c\<rparr>)"
    unfolding d'
    using pass_written [where P = "\<lambda>r. amount r \<le> 0" and dec = "zero_fix (bills d)",
            OF assms(1,3,4,5)] by simp
  moreover have "filter (\<lambda>f. fr_receiptNumber f = receiptNumber r) (zero_fixed resp)
                   = [zero_fixed_entry r c]"
    unfolding zf
    using pass_listed [where p = fr_receiptNumber and mk = zero_fixed_entry
            and P = "\<lambda>r. amount r \<le> 0" and dec = "zero_fix (bills d)"
            and s = "receipts d" and r = r and c = c] assms(2,3,4,5)
    by (simp add: zero_fixed_entry_def)
  ultimately show ?thesis by simp
qed

lemma fixBill_skips:
  assumes "distinct (map r_id (receipts d))" and "distinct (map receiptNumber (receipts d))"
    and "r \<in> set (receipts d)"
    and "\<And>billing. find (\<lambda>b. b_billNumber b = billNumber) (bills d) = Some billing
            \<Longrightarrow> r_billNumber r = billNumber \<longrightarrow> bill_fix billing r = None"
    and "fixSpecificBillReceipt F billNumber d = (d', resp)"
  shows "find (\<lambda>x. r_id x = r_id r) (receipts d') = Some r
       \<and> filter (\<lambda>f. bf_receiptNumber f = receiptNumber r) (bill_fixed resp) = []"
  using fixBill_outcome [OF assms(5)]
proof (elim disjE conjE exE)
  assume "d' = d" "bill_fixed resp = []"
  then show ?thesis using find_self [OF assms(1,3)] by simp
next
  fix billing
  assume b: "find (\<lambda>b. b_billNumber b = billNumber) (bills d) = Some billing"
    and d': "d' = d\<lparr>receipts := apply_updates (bill_fix billing)
                                 (filter (\<lambda>r. r_billNumber r = billNumber) (receipts d))
                                 (receipts d)\<rparr>"
    and bf: "bill_fixed resp = fixed_entries bill_fixed_entry (bill_fix billing)
                                 (filter (\<lambda>r. r_billNumber r = billNumber) (receipts d))"
  note skip = assms(4) [OF b]
  have "find (\<lambda>x. r_id x = r_id r) (receipts d') = Some r"
    unfolding d'
    using pass_untouched [where P = "\<lambda>r. r_billNumber r = billNumber"
            and dec = "bill_fix billing", OF assms(1,3) skip]
    by simp
  moreover have "filter (\<lambda>f. bf_receiptNumber f = receiptNumber r) (bill_fixed resp) = []"
    unfolding bf
    using pass_unlisted [where p = bf_receiptNumber and mk = bill_fixed_entry
            and P = "\<lambda>r. r_billNumber r = billNumber" and dec = "bill_fix billing"
            and s = "receipts d" and r = r] assms(2,3) skip
    by (simp add: bill_fixed_entry_def)
  ultimately show ?thesis by simp
qed

lemma fixBill_writes:
  assumes "distinct (map r_id (receipts d))" and "distinct (map receiptNumber (receipts d))"
    and "r \<in> set (receipts d)" and "r_billNumber r = billNumber"
    and "find (\<lambda>b. b_billNumber b = billNumber) (bills d) = Some billing"
    and "bill_fix billing r = Some c"
    and "fixSpecificBillReceipt F billNumber d = (d', resp)" and "success resp"
  shows "find (\<lambda>x. r_id x = r_id r) (receipts d') = Some (r\<lparr>amount := c\<rparr>)
       \<and> filter (\<lambda>f. bf_receiptNumber f = receiptNumber r) (bill_fixed resp)
           = [bill_fixed_entry r c]"
  using fixBill_outcome [OF assms(7)]
proof (elim disjE conjE exE)
  assume "\<not> success resp"
  with assms(8) show ?thesis by simp
next
  fix billing'
  assume b: "find (\<lambda>b. b_billNumber b = billNumber) (bills d) = Some billing'"
    and d': "d' = d\<lparr>receipts := apply_updates (bill_fix billing')
                                 (filter (\<lambda>r. r_billNumber r = billNumber) (receipts d))
                                 (receipts d)\<rparr>"
    and bf: "bill_fixed resp = fixed_entries bill_fixed_entry (bill_fix billing')
                                 (filter (\<lambda>r. r_billNumber r = billNumber) (receipts d))"
  from b assms(5) have same: "billing' = billing" by simp
  have "find (\<lambda>x. r_id x = r_id r) (receipts d') = Some (r\<lparr>amount := c\<rparr>)"
    unfolding d' same
    using pass_written [where P = "\<lambda>r. r_billNumber r = billNumber"
            and dec = "bill_fix billing", OF assms(1,3,4,6)]
    by simp
  moreover have "filter (\<lambda>f. bf_receiptNumber f = receiptNumber r) (bill_fixed resp)
                   = [bill_fixed_entry r c]"
    unfolding bf same
    using pass_listed [where p = bf_receiptNumber and mk = bill_fixed_entry
            and P = "\<lambda>r. r_billNumber r = billNumber" and dec = "bill_fix billing"
            and s = "receipts d" and r = r and c = c] assms(2,3,4,6)
    by (simp add: bill_fixed_entry_def)
  ultimately show ?thesis by simp
qed

lemma findById_None:
  "(\<forall>b\<in>set bs. i \<noteq> Some (b_id b)) \<Longrightarrow> findById bs i = None"
  by (cases i) (auto simp: findById_def find_None_iff)

lemma fixZero_succeeds:
  "\<forall>k<fix_zero_calls d. F k = None \<Longrightarrow> success (snd (fixZeroAmountReceipts F d))"
  unfolding fix_zero_calls_eq fixZeroAmountReceipts_eq Let_def
  by (simp only: no_fault_below) simp

lemma fixBill_succeeds:
  assumes "find (\<lambda>b. b_billNumber b = billNumber) (bills d) = Some billing"
    and "\<forall>k<fix_bill_calls billNumber d. F k = None"
  shows "success (snd (fixSpecificBillReceipt F billNumber d))"
proof -
  define n where "n = Suc (Suc (Suc (update_calls (bill_fix billing)
                        (filter (\<lambda>r. r_billNumber r = billNumber) (receipts d)))))"
  have "fix_bill_calls billNumber d = n"
    by (simp add: fix_bill_calls_eq assms(1) n_def)
  with assms(2) have ff: "first_fault F 0 n = None"
    by (intro no_fault_below) simp
  show ?thesis
    apply (subst fixSpecificBillReceipt_eq)
    apply (simp only: assms(1) option.case Let_def)
    apply (fold n_def)
    apply (simp only: ff option.case snd_conv success.simps)
    done
qed

lemmas ledger_defs = ledger_def bill_B1_def bill_B2_def bill_B4_def rec_R1_def rec_R2_def
  rec_R3_def rec_R4_def rec_R5_def mk_receipt_def

lemma ledger_distinct:
  "distinct (map r_id (receipts ledger))" "distinct (map receiptNumber (receipts ledger))"
  by (simp_all add: ledger_defs)

lemma ledger_no_faults:
  "\<forall>k<fix_zero_calls ledger. no_faults k = None"
  "\<forall>k<fix_bill_calls bn ledger. no_faults k = None"
  by (simp_all add: no_faults_def)

section \<open>A pass without one of the receipts it skips\<close>

lemma fixed_entries_remove:
  "dec r = None \<Longrightarrow>
     fixed_entries mk dec (filter (\<lambda>x. x \<noteq> r) rs) = fixed_entries mk dec rs"
  by (induction rs) (auto split: option.splits)

lemma fixed_entries_remove_filter:
  "dec r = None \<Longrightarrow>
     fixed_entries mk dec (filter P (filter (\<lambda>x. x \<noteq> r) rs))
       = fixed_entries mk dec (filter P rs)"
  by (induction rs) (auto split: option.splits)

lemma filter_swap: "filter P (filter Q s) = filter Q (filter P s)"
  by (induction s) simp_all

lemma apply_updates_remove:
  assumes "distinct (map r_id s)" and "r \<in> set s" and "P r \<longrightarrow> dec r = None"
  shows "apply_updates dec (filter P (filter (\<lambda>x. x \<noteq> r) s)) (filter (\<lambda>x. x \<noteq> r) s)
           = filter (\<lambda>x. x \<noteq> r) (apply_updates dec (filter P s) s)"
proof -
  define g where "g = (\<lambda>x. if P x then corrected dec x else x)"
  have gid: "\<And>x. r_id (g x) = r_id x" by (simp add: g_def)
  have gr: "g r = r" using assms(3) by (simp add: g_def corrected_def)
  have keep: "\<And>x. x \<in> set s \<Longrightarrow> (g x \<noteq> r) = (x \<noteq> r)"
  proof -
    fix x assume x: "x \<in> set s"
    show "(g x \<noteq> r) = (x \<noteq> r)"
    proof (cases "x = r")
      case True
      with gr show ?thesis by simp
    next
      case False
      with assms(1,2) x have "r_id x \<noteq> r_id r" by (metis distinct_map_eq)
      then have "g x \<noteq> r" using gid by metis
      with False show ?thesis by simp
    qed
  qed
  have d0: "distinct (map r_id (filter (\<lambda>x. x \<noteq> r) s))"
    using assms(1) by (rule distinct_map_filter)
  have L: "apply_updates dec (filter P (filter (\<lambda>x. x \<noteq> r) s)) (filter (\<lambda>x. x \<noteq> r) s)
          = map g (filter (\<lambda>x. x \<noteq> r) s)"
    unfolding g_def by (rule apply_updates_filter [OF d0])
  have R: "apply_updates dec (filter P s) s = map g s"
    unfolding g_def by (rule apply_updates_filter [OF assms(1)])
  have "filter (\<lambda>x. x \<noteq> r) (map g s) = map g (filter ((\<lambda>x. x \<noteq> r) \<circ> g) s)"
    by (simp add: filter_map)
  moreover have "filter ((\<lambda>x. x \<noteq> r) \<circ> g) s = filter (\<lambda>x. x \<noteq> r) s"
    by (rule filter_cong) (simp_all add: keep)
  ultimately have "filter (\<lambda>x. x \<noteq> r) (map g s) = map g (filter (\<lambda>x. x \<noteq> r) s)"
    by (simp only:)
  then show ?thesis by (simp only: L R)
qed

lemma fixZero_no_faults:
  "fst (fixZeroAmountReceipts no_faults d) =
     d\<lparr>receipts := apply_updates (zero_fix (bills d))
                      (filter (\<lambda>r. amount r \<le> 0) (receipts d)) (receipts d)\<rparr>"
  "zero_fixed (snd (fixZeroAmountReceipts no_faults d)) =
     fixed_entries zero_fixed_entry (zero_fix (bills d))
       (filter (\<lambda>r. amount r \<le> 0) (receipts d))"
  unfolding fixZeroAmountReceipts_eq Let_def
  by (simp_all only: first_fault_no_faults option.case fst_conv snd_conv zero_fixed.simps)

lemma fixBill_no_faults:
  "receipts (fst (fixSpecificBillReceipt no_faults billNumber d)) =
     (case find (\<lambda>b. b_billNumber b = billNumber) (bills d) of
        None \<Rightarrow> receipts d
      | Some billing \<Rightarrow>
          apply_updates (bill_fix billing)
            (filter (\<lambda>r. r_billNumber r = billNumber) (receipts d)) (receipts d))"
  "bill_fixed (snd (fixSpecificBillReceipt no_faults billNumber d)) =
     (case find (\<lambda>b. b_billNumber b = billNumber) (bills d) of
        None \<Rightarrow> []
      | Some billing \<Rightarrow>
          fixed_entries bill_fixed_entry (bill_fix billing)
            (filter (\<lambda>r. r_billNumber r = billNumber) (receipts d)))"
proof -
  show "receipts (fst (fixSpecificBillReceipt no_faults billNumber d)) =
     (case find (\<lambda>b. b_billNumber b = billNumber) (bills d) of
        None \<Rightarrow> receipts d
      | Some billing \<Rightarrow>
          apply_updates (bill_fix billing)
            (filter (\<lambda>r. r_billNumber r = billNumber) (receipts d)) (receipts d))"
  proof (cases "find (\<lambda>b. b_billNumber b = billNumber) (bills d)")
    case None
    then show ?thesis by (simp add: fixSpecificBillReceipt_eq no_faults_def)
  next
    case (Some billing)
    show ?thesis
      unfolding fixSpecificBillReceipt_eq Let_def Some
      by (simp only: first_fault_no_faults option.case fst_conv) simp
  qed
  show "bill_fixed (snd (fixSpecificBillReceipt no_faults billNumber d)) =
     (case find (\<lambda>b. b_billNumber b = billNumber) (bills d) of
        None \<Rightarrow> []
      | Some billing \<Rightarrow>
          fixed_entries bill_fixed_entry (bill_fix billing)
            (filter (\<lambda>r. r_billNumber r = billNumber) (receipts d)))"
  proof (cases "find (\<lambda>b. b_billNumber b = billNumber) (bills d)")
    case None
    then show ?thesis by (simp add: fixSpecificBillReceipt_eq no_faults_def)
  next
    case (Some billing)
    show ?thesis
      unfolding fixSpecificBillReceipt_eq Let_def Some
      by (simp only: first_fault_no_faults option.case snd_conv bill_fixed.simps)
  qed
qed

lemma payment_zero_fix: "r_type r = ''payment'' \<Longrightarrow> zero_fix bs r = None"
  by (simp add: zero_fix_def zero_correctAmount_def split: option.splits)

lemma payment_bill_fix: "r_type r = ''payment'' \<Longrightarrow> bill_fix billing r = None"
  by (simp add: bill_fix_def bill_correctAmount_def)

lemma zero_fix_Some:
  "zero_fix bs r = Some c \<Longrightarrow>
     \<exists>b. findById bs (billingId r) = Some b \<and> zero_correctAmount r b = Some c
        \<and> 0 < c \<and> c \<noteq> amount r"
  by (auto simp: zero_fix_def split: option.splits if_splits)

lemma bill_fix_Some:
  "bill_fix b r = Some c \<Longrightarrow> c = bill_correctAmount r b \<and> 0 < c \<and> c \<noteq> amount r"
  by (auto simp: bill_fix_def Let_def split: if_splits)

lemma keep_amount: "(x :: receipt)\<lparr>amount := amount x\<rparr> = x"
  by simp

section \<open>What an abort discards, and a commit that fails\<close>

text \<open>
  A write that carries the session is dropped by \<^verbatim>\<open>abortTransaction\<close>; a write that
  does not is kept.
\<close>

lemma abort_discards_session_write:
  "abortTransaction (write_receipts True f (begin_session d)) =
     Some \<lparr> committed = d, session = Idle \<rparr>"
  by (simp add: begin_session_eq)

lemma abort_keeps_other_write:
  "abortTransaction (write_receipts False f (begin_session d)) =
     Some \<lparr> committed = d\<lparr>receipts := f (receipts d)\<rparr>, session = Idle \<rparr>"
  by (simp add: begin_session_eq write_receipts_def abortTransaction_def)

text \<open>
  When the commit is the first call to throw, the \<^verbatim>\<open>catch\<close> block's
  \<^verbatim>\<open>abortTransaction\<close> throws in turn, and the handler sends no body.
\<close>

lemma commit_failure_create:
  assumes "F k = Some e" and "\<forall>j<k. F j = None" and "Suc k = create_calls E d"
  shows "createMissingReceipts E F d = (d, NoResponse)"
proof -
  from assms(3) obtain n where n: "create_calls E d = 3 + n" and k: "k = 2 + n"
    by (simp add: create_calls_eq)
  have "first_fault F 0 (2 + n) = None"
    using assms(2) k by (intro no_fault_below) simp
  moreover have "first_fault F 0 (3 + n) = Some e"
    using assms(1,2) k by (intro first_fault_first [where j = k]) simp_all
  ultimately show ?thesis
    using n unfolding createMissingReceipts_eq create_calls_eq Let_def by simp
qed

lemma commit_failure_fixZero:
  assumes "F k = Some e" and "\<forall>j<k. F j = None" and "Suc k = fix_zero_calls d"
  shows "fixZeroAmountReceipts F d = (d, NoResponse)"
proof -
  from assms(3) obtain n where n: "fix_zero_calls d = Suc (Suc n)" and k: "k = Suc n"
    by (simp add: fix_zero_calls_eq)
  have "first_fault F 0 (Suc n) = None"
    using assms(2) k by (intro no_fault_below) simp
  moreover have "first_fault F 0 (Suc (Suc n)) = Some e"
    using assms(1,2) k by (intro first_fault_first [where j = k]) simp_all
  ultimately show ?thesis
    using n unfolding fixZeroAmountReceipts_eq fix_zero_calls_eq Let_def by simp
qed

lemma commit_failure_fixBill:
  assumes "F k = Some e" and "\<forall>j<k. F j = None"
    and "Suc k = fix_bill_calls billNumber d" and "0 < k"
  shows "fixSpecificBillReceipt F billNumber d = (d, NoResponse)"
proof (cases "find (\<lambda>b. b_billNumber b = billNumber) (bills d)")
  case None
  with assms(3,4) show ?thesis by (simp add: fix_bill_calls_eq)
next
  case (Some billing)
  with assms(3) obtain n where n: "fix_bill_calls billNumber d = Suc (Suc (Suc n))"
    and k: "k = Suc (Suc n)"
    by (auto simp: fix_bill_calls_eq)
  have "first_fault F 0 (Suc (Suc n)) = None"
    using assms(2) k by (intro no_fault_below) simp
  moreover have "first_fault F 0 (Suc (Suc (Suc n))) = Some e"
    using assms(1,2) k by (intro first_fault_first [where j = k]) simp_all
  ultimately show ?thesis
    using n Some unfolding fixSpecificBillReceipt_eq fix_bill_calls_eq Let_def by simp
qed

section \<open>Claims\<close>

text \<open>
  C1.  A successful run of \<^verbatim>\<open>createMissingReceipts\<close> appends, for the bills with
  \<open>payment.paid > 0\<close> that no receipt of the snapshot references by bill number, one new
  receipt each, in the order of the bills: type \<open>creation\<close>, amount the bill's
  \<open>payment.paid\<close>, the bill's number, \<open>newStatus\<close> the bill's status, \<open>date\<close> the
  bill's date, and the payment method of the bill's payment: its type, its card number and
  its UTR number, each of the two numbers being the empty string when the bill has none.
  Nothing else is written, and \<open>createdCount\<close> is the number of receipts so created.  The
  run is successful when no storage call fails.
\<close>

theorem createMissingReceipts_creates:
  assumes "createMissingReceipts E F d = (d', resp)"
  shows "((\<forall>k<create_calls E d. F k = None) \<longrightarrow> success resp)
       \<and> (success resp \<longrightarrow>
           (let cands = filter (\<lambda>b. paid (b_payment b) > 0
                                     \<and> b_billNumber b \<notin> r_billNumber ` set (receipts d))
                          (bills d)
            in \<exists>news m.
                 bills d' = bills d \<and> receipts d' = receipts d @ news
               \<and> length news = length cands
               \<and> (\<forall>i<length cands.
                     r_type (news ! i) = ''creation''
                   \<and> amount (news ! i) = paid (b_payment (cands ! i))
                   \<and> r_billNumber (news ! i) = b_billNumber (cands ! i)
                   \<and> r_paymentMethod (news ! i) =
                       \<lparr> pm_type = p_type (b_payment (cands ! i)),
                         pm_cardNumber = (case cardNumber (b_payment (cands ! i)) of
                                            None \<Rightarrow> '''' | Some c \<Rightarrow> c),
                         pm_utrNumber = (case utrNumber (b_payment (cands ! i)) of
                                           None \<Rightarrow> '''' | Some u \<Rightarrow> u) \<rparr>
                   \<and> newStatus (news ! i) = b_status (cands ! i)
                   \<and> r_date (news ! i) = b_date (cands ! i))
               \<and> resp = Created m (length news) (length (bills d))))"
proof -
  define cands where
    "cands = filter (\<lambda>b. b_billNumber b \<notin> r_billNumber ` set (receipts d)
                          \<and> paid (b_payment b) > 0) (bills d)"
  define news where "news = map (\<lambda>(i, b). receiptData E i b) (enumerate 0 cands)"
  have cands': "filter (\<lambda>b. paid (b_payment b) > 0
                   \<and> b_billNumber b \<notin> r_billNumber ` set (receipts d)) (bills d) = cands"
    unfolding cands_def by (rule filter_cong) auto
  have run: "createMissingReceipts E F d =
     (case first_fault F 0 (3 + length cands) of
        Some e \<Rightarrow>
          (d, case first_fault F 0 (2 + length cands) of
                None \<Rightarrow> NoResponse
              | Some e' \<Rightarrow> Failure ''Error creating missing receipts'' e')
      | None \<Rightarrow>
         (d\<lparr>receipts := receipts d @ news\<rparr>,
          Created (''Successfully created '' @ show_nat (length news) @ '' missing receipts'')
            (length news) (length (bills d))))"
    unfolding createMissingReceipts_eq cands_def news_def Let_def ..
  have calls: "create_calls E d = 3 + length cands"
    unfolding create_calls_eq cands_def ..
  have len: "length news = length cands" by (simp add: news_def)
  have fields: "\<forall>i<length cands.
       r_type (news ! i) = ''creation''
     \<and> amount (news ! i) = paid (b_payment (cands ! i))
     \<and> r_billNumber (news ! i) = b_billNumber (cands ! i)
     \<and> r_paymentMethod (news ! i) =
         \<lparr> pm_type = p_type (b_payment (cands ! i)),
           pm_cardNumber = (case cardNumber (b_payment (cands ! i)) of
                                            None \<Rightarrow> '''' | Some c \<Rightarrow> c),
           pm_utrNumber = (case utrNumber (b_payment (cands ! i)) of
                                           None \<Rightarrow> '''' | Some u \<Rightarrow> u) \<rparr>
     \<and> newStatus (news ! i) = b_status (cands ! i)
     \<and> r_date (news ! i) = b_date (cands ! i)"
  proof (intro allI impI)
    fix i assume "i < length cands"
    then have "news ! i = receiptData E (0 + i) (cands ! i)"
      unfolding news_def by (rule map_receiptData_nth)
    then show "r_type (news ! i) = ''creation''
     \<and> amount (news ! i) = paid (b_payment (cands ! i))
     \<and> r_billNumber (news ! i) = b_billNumber (cands ! i)
     \<and> r_paymentMethod (news ! i) =
         \<lparr> pm_type = p_type (b_payment (cands ! i)),
           pm_cardNumber = (case cardNumber (b_payment (cands ! i)) of
                                            None \<Rightarrow> '''' | Some c \<Rightarrow> c),
           pm_utrNumber = (case utrNumber (b_payment (cands ! i)) of
                                           None \<Rightarrow> '''' | Some u \<Rightarrow> u) \<rparr>
     \<and> newStatus (news ! i) = b_status (cands ! i)
     \<and> r_date (news ! i) = b_date (cands ! i)"
      by (simp add: receiptData_def or_empty_def)
  qed
  show ?thesis
  proof (cases "first_fault F 0 (3 + length cands)")
    case (Some e)
    with run assms have "\<not> success resp" by (auto split: option.splits)
    moreover have "\<not> (\<forall>k<create_calls E d. F k = None)"
    proof
      assume "\<forall>k<create_calls E d. F k = None"
      then have "first_fault F 0 (3 + length cands) = None"
        unfolding calls by (rule no_fault_below)
      with Some show False by simp
    qed
    ultimately show ?thesis by simp
  next
    case None
    with run assms have d': "d' = d\<lparr>receipts := receipts d @ news\<rparr>"
      and resp: "resp = Created (''Successfully created '' @ show_nat (length news)
                   @ '' missing receipts'') (length news) (length (bills d))"
      by simp_all
    have "\<exists>news m.
                 bills d' = bills d \<and> receipts d' = receipts d @ news
               \<and> length news = length cands
               \<and> (\<forall>i<length cands.
                     r_type (news ! i) = ''creation''
                   \<and> amount (news ! i) = paid (b_payment (cands ! i))
                   \<and> r_billNumber (news ! i) = b_billNumber (cands ! i)
                   \<and> r_paymentMethod (news ! i) =
                       \<lparr> pm_type = p_type (b_payment (cands ! i)),
                         pm_cardNumber = (case cardNumber (b_payment (cands ! i)) of
                                            None \<Rightarrow> '''' | Some c \<Rightarrow> c),
                         pm_utrNumber = (case utrNumber (b_payment (cands ! i)) of
                                           None \<Rightarrow> '''' | Some u \<Rightarrow> u) \<rparr>
                   \<and> newStatus (news ! i) = b_status (cands ! i)
                   \<and> r_date (news ! i) = b_date (cands ! i))
               \<and> resp = Created m (length news) (length (bills d))"
      using d' resp len fields by (intro exI [of _ news] exI) simp
    then show ?thesis
      unfolding Let_def cands' using resp by simp
  qed
qed

theorem createMissingReceipts_creates_witness:
  "success (snd (createMissingReceipts ex_env no_faults db_unreceipted))
   \<and> (\<exists>news m.
         receipts (fst (createMissingReceipts ex_env no_faults db_unreceipted)) = news
       \<and> length news = 3
       \<and> r_type (news ! 0) = ''creation''
       \<and> amount (news ! 0) = 500
       \<and> r_billNumber (news ! 0) = ''B1''
       \<and> r_paymentMethod (news ! 0) =
           \<lparr> pm_type = ''cash'', pm_cardNumber = '''', pm_utrNumber = '''' \<rparr>
       \<and> newStatus (news ! 0) = ''paid''
       \<and> r_date (news ! 0) = 1700000000
       \<and> r_type (news ! 1) = ''creation''
       \<and> amount (news ! 1) = 300
       \<and> r_billNumber (news ! 1) = ''B2''
       \<and> r_paymentMethod (news ! 1) =
           \<lparr> pm_type = ''card'', pm_cardNumber = ''4111'', pm_utrNumber = '''' \<rparr>
       \<and> newStatus (news ! 1) = ''paid''
       \<and> r_date (news ! 1) = 1700000500
       \<and> r_type (news ! 2) = ''creation''
       \<and> amount (news ! 2) = 250
       \<and> r_billNumber (news ! 2) = ''B3''
       \<and> r_paymentMethod (news ! 2) =
           \<lparr> pm_type = ''upi'', pm_cardNumber = '''', pm_utrNumber = ''UTR42'' \<rparr>
       \<and> newStatus (news ! 2) = ''partial''
       \<and> r_date (news ! 2) = 1700000700
       \<and> snd (createMissingReceipts ex_env no_faults db_unreceipted) = Created m 3 3)"
proof -
  have run: "createMissingReceipts ex_env no_faults db_unreceipted =
     (fst (createMissingReceipts ex_env no_faults db_unreceipted),
      snd (createMissingReceipts ex_env no_faults db_unreceipted))" by simp
  have nf: "\<forall>k<create_calls ex_env db_unreceipted. no_faults k = None"
    by (simp add: no_faults_def)
  have cands: "filter (\<lambda>b. paid (b_payment b) > 0
                   \<and> b_billNumber b \<notin> r_billNumber ` set (receipts db_unreceipted))
                 (bills db_unreceipted) = [bill_B1, bill_B2, bill_B3]"
    by (simp add: db_unreceipted_def bill_B1_def bill_B2_def bill_B3_def)
  have bs: "bills db_unreceipted = [bill_B1, bill_B2, bill_B3]"
    and rs: "receipts db_unreceipted = []"
    by (simp_all add: db_unreceipted_def)
  from createMissingReceipts_creates [OF run] nf
  have ok: "success (snd (createMissingReceipts ex_env no_faults db_unreceipted))"
    by blast
  with createMissingReceipts_creates [OF run]
  obtain news m where
        app: "receipts (fst (createMissingReceipts ex_env no_faults db_unreceipted)) = news"
    and len: "length news = 3"
    and fields: "\<forall>i<3.
                     r_type (news ! i) = ''creation''
                   \<and> amount (news ! i) = paid (b_payment ([bill_B1, bill_B2, bill_B3] ! i))
                   \<and> r_billNumber (news ! i) = b_billNumber ([bill_B1, bill_B2, bill_B3] ! i)
                   \<and> r_paymentMethod (news ! i) =
                       \<lparr> pm_type = p_type (b_payment ([bill_B1, bill_B2, bill_B3] ! i)),
                         pm_cardNumber =
                           (case cardNumber (b_payment ([bill_B1, bill_B2, bill_B3] ! i)) of
                              None \<Rightarrow> '''' | Some c \<Rightarrow> c),
                         pm_utrNumber =
                           (case utrNumber (b_payment ([bill_B1, bill_B2, bill_B3] ! i)) of
                              None \<Rightarrow> '''' | Some u \<Rightarrow> u) \<rparr>
                   \<and> newStatus (news ! i) = b_status ([bill_B1, bill_B2, bill_B3] ! i)
                   \<and> r_date (news ! i) = b_date ([bill_B1, bill_B2, bill_B3] ! i)"
    and resp: "snd (createMissingReceipts ex_env no_faults db_unreceipted) = Created m 3 3"
    unfolding Let_def cands by (auto simp: bs rs)
  from fields have "(\<lambda>i.
                     r_type (news ! i) = ''creation''
                   \<and> amount (news ! i) = paid (b_payment ([bill_B1, bill_B2, bill_B3] ! i))
                   \<and> r_billNumber (news ! i) = b_billNumber ([bill_B1, bill_B2, bill_B3] ! i)
                   \<and> r_paymentMethod (news ! i) =
                       \<lparr> pm_type = p_type (b_payment ([bill_B1, bill_B2, bill_B3] ! i)),
                         pm_cardNumber =
                           (case cardNumber (b_payment ([bill_B1, bill_B2, bill_B3] ! i)) of
                              None \<Rightarrow> '''' | Some c \<Rightarrow> c),
                         pm_utrNumber =
                           (case utrNumber (b_payment ([bill_B1, bill_B2, bill_B3] ! i)) of
                              None \<Rightarrow> '''' | Some u \<Rightarrow> u) \<rparr>
                   \<and> newStatus (news ! i) = b_status ([bill_B1, bill_B2, bill_B3] ! i)
                   \<and> r_date (news ! i) = b_date ([bill_B1, bill_B2, bill_B3] ! i)) 0"
    and "(\<lambda>i.
                     r_type (news ! i) = ''creation''
                   \<and> amount (news ! i) = paid (b_payment ([bill_B1, bill_B2, bill_B3] ! i))
                   \<and> r_billNumber (news ! i) = b_billNumber ([bill_B1, bill_B2, bill_B3] ! i)
                   \<and> r_paymentMethod (news ! i) =
                       \<lparr> pm_type = p_type (b_payment ([bill_B1, bill_B2, bill_B3] ! i)),
                         pm_cardNumber =
                           (case cardNumber (b_payment ([bill_B1, bill_B2, bill_B3] ! i)) of
                              None \<Rightarrow> '''' | Some c \<Rightarrow> c),
                         pm_utrNumber =
                           (case utrNumber (b_payment ([bill_B1, bill_B2, bill_B3] ! i)) of
                              None \<Rightarrow> '''' | Some u \<Rightarrow> u) \<rparr>
                   \<and> newStatus (news ! i) = b_status ([bill_B1, bill_B2, bill_B3] ! i)
                   \<and> r_date (news ! i) = b_date ([bill_B1, bill_B2, bill_B3] ! i)) 1"
    and "(\<lambda>i.
                     r_type (news ! i) = ''creation''
                   \<and> amount (news ! i) = paid (b_payment ([bill_B1, bill_B2, bill_B3] ! i))
                   \<and> r_billNumber (news ! i) = b_billNumber ([bill_B1, bill_B2, bill_B3] ! i)
                   \<and> r_paymentMethod (news ! i) =
                       \<lparr> pm_type = p_type (b_payment ([bill_B1, bill_B2, bill_B3] ! i)),
                         pm_cardNumber =
                           (case cardNumber (b_payment ([bill_B1, bill_B2, bill_B3] ! i)) of
                              None \<Rightarrow> '''' | Some c \<Rightarrow> c),
                         pm_utrNumber =
                           (case utrNumber (b_payment ([bill_B1, bill_B2, bill_B3] ! i)) of
                              None \<Rightarrow> '''' | Some u \<Rightarrow> u) \<rparr>
                   \<and> newStatus (news ! i) = b_status ([bill_B1, bill_B2, bill_B3] ! i)
                   \<and> r_date (news ! i) = b_date ([bill_B1, bill_B2, bill_B3] ! i)) 2"
    by simp_all
  then have
    "r_type (news ! 0) = ''creation''
       \<and> amount (news ! 0) = 500
       \<and> r_billNumber (news ! 0) = ''B1''
       \<and> r_paymentMethod (news ! 0) =
           \<lparr> pm_type = ''cash'', pm_cardNumber = '''', pm_utrNumber = '''' \<rparr>
       \<and> newStatus (news ! 0) = ''paid''
       \<and> r_date (news ! 0) = 1700000000"
    "r_type (news ! 1) = ''creation''
       \<and> amount (news ! 1) = 300
       \<and> r_billNumber (news ! 1) = ''B2''
       \<and> r_paymentMethod (news ! 1) =
           \<lparr> pm_type = ''card'', pm_cardNumber = ''4111'', pm_utrNumber = '''' \<rparr>
       \<and> newStatus (news ! 1) = ''paid''
       \<and> r_date (news ! 1) = 1700000500"
    "r_type (news ! 2) = ''creation''
       \<and> amount (news ! 2) = 250
       \<and> r_billNumber (news ! 2) = ''B3''
       \<and> r_paymentMethod (news ! 2) =
           \<lparr> pm_type = ''upi'', pm_cardNumber = '''', pm_utrNumber = ''UTR42'' \<rparr>
       \<and> newStatus (news ! 2) = ''partial''
       \<and> r_date (news ! 2) = 1700000700"
    by (simp_all add: bill_B1_def bill_B2_def bill_B3_def)
  with ok app len resp show ?thesis by blast
qed




text \<open>
  C3.  After a successful run of \<^verbatim>\<open>createMissingReceipts\<close>, a second run on the state
  the first one produced leaves that state as it is and, when it succeeds, reports
  \<open>createdCount = 0\<close>.  The second run succeeds when its three storage calls (the two
  reads and the commit) do.
\<close>

theorem createMissingReceipts_idempotent:
  assumes "createMissingReceipts E1 F1 d = (d1, resp1)" and "success resp1"
    and "createMissingReceipts E2 F2 d1 = (d2, resp2)"
  shows "d2 = d1
       \<and> (success resp2 \<longrightarrow> (\<exists>m. resp2 = Created m 0 (length (bills d))))
       \<and> ((\<forall>k<3. F2 k = None) \<longrightarrow> success resp2)"
proof -
  define cands where
    "cands = filter (\<lambda>b. b_billNumber b \<notin> r_billNumber ` set (receipts d)
                          \<and> paid (b_payment b) > 0) (bills d)"
  define news where "news = map (\<lambda>(i, b). receiptData E1 i b) (enumerate 0 cands)"
  have d1: "d1 = d\<lparr>receipts := receipts d @ news\<rparr>"
    using assms(1,2)
    unfolding createMissingReceipts_eq Let_def cands_def [symmetric] news_def [symmetric]
    by (auto split: option.splits)
  have nums: "r_billNumber ` set news = b_billNumber ` set cands"
  proof -
    have "map r_billNumber news = map b_billNumber cands"
      unfolding news_def by (rule map_receiptData_billNumbers)
    then have "set (map r_billNumber news) = set (map b_billNumber cands)" by simp
    then show ?thesis by simp
  qed
  have none: "filter (\<lambda>b. b_billNumber b \<notin> r_billNumber ` set (receipts d1)
                          \<and> paid (b_payment b) > 0) (bills d1) = []"
  proof -
    have "\<And>b. b \<in> set (bills d) \<Longrightarrow> paid (b_payment b) > 0
            \<Longrightarrow> b_billNumber b \<in> r_billNumber ` set (receipts d) \<union> r_billNumber ` set news"
    proof -
      fix b assume b: "b \<in> set (bills d)" "paid (b_payment b) > 0"
      show "b_billNumber b \<in> r_billNumber ` set (receipts d) \<union> r_billNumber ` set news"
      proof (cases "b_billNumber b \<in> r_billNumber ` set (receipts d)")
        case True
        then show ?thesis by simp
      next
        case False
        with b have "b \<in> set cands" by (simp add: cands_def)
        then show ?thesis unfolding nums by simp
      qed
    qed
    then show ?thesis
      unfolding d1 by (auto simp: filter_empty_conv image_Un)
  qed
  have run2: "createMissingReceipts E2 F2 d1 =
     (case first_fault F2 0 3 of
        Some e \<Rightarrow>
          (d1, case first_fault F2 0 2 of
                 None \<Rightarrow> NoResponse
               | Some e' \<Rightarrow> Failure ''Error creating missing receipts'' e')
      | None \<Rightarrow> (d1, Created (''Successfully created '' @ show_nat 0 @ '' missing receipts'')
                       0 (length (bills d))))"
  proof -
    have bd: "bills d1 = bills d" by (simp add: d1)
    show ?thesis
      unfolding createMissingReceipts_eq Let_def none
      by (simp add: bd split: option.splits)
  qed
  show ?thesis
  proof (cases "first_fault F2 0 3")
    case None
    with run2 assms(3) show ?thesis by auto
  next
    case (Some e)
    moreover have "\<not> (\<forall>k<3. F2 k = None)"
    proof
      assume "\<forall>k<3. F2 k = None"
      then have "first_fault F2 0 3 = None" by (rule no_fault_below)
      with Some show False by simp
    qed
    ultimately show ?thesis using run2 assms(3) by (auto split: option.splits)
  qed
qed

theorem createMissingReceipts_idempotent_witness:
  "success (snd (createMissingReceipts ex_env no_faults ledger))
   \<and> fst (createMissingReceipts ex_env no_faults
            (fst (createMissingReceipts ex_env no_faults ledger)))
       = fst (createMissingReceipts ex_env no_faults ledger)
   \<and> (\<exists>m. snd (createMissingReceipts ex_env no_faults
                  (fst (createMissingReceipts ex_env no_faults ledger))) = Created m 0 3)"
proof -
  have run1: "createMissingReceipts ex_env no_faults ledger =
     (fst (createMissingReceipts ex_env no_faults ledger),
      snd (createMissingReceipts ex_env no_faults ledger))" by simp
  have ok1: "success (snd (createMissingReceipts ex_env no_faults ledger))"
    by (simp add: createMissingReceipts_eq Let_def)
  have run2: "createMissingReceipts ex_env no_faults
                (fst (createMissingReceipts ex_env no_faults ledger)) =
     (fst (createMissingReceipts ex_env no_faults
             (fst (createMissingReceipts ex_env no_faults ledger))),
      snd (createMissingReceipts ex_env no_faults
             (fst (createMissingReceipts ex_env no_faults ledger))))" by simp
  have nf: "\<forall>k<3. no_faults k = None" by (simp add: no_faults_def)
  have len: "length (bills ledger) = 3" by (simp add: ledger_def)
  show ?thesis
    using createMissingReceipts_idempotent [OF run1 ok1 run2] ok1 nf len by auto
qed

text \<open>
  C4, the claim as stated fails for \<^verbatim>\<open>fixZeroAmountReceipts\<close>: receipt \<open>R3\<close> is of type
  \<open>cancellation\<close> with amount \<open>100\<close>, its bill has \<open>payment.paid = 300\<close>; the handler
  only reads receipts with amount \<open>\<le> 0\<close>, leaves \<open>R3\<close> at \<open>100\<close> and reports nothing
  fixed.
\<close>

theorem fixZero_ignores_positive_amounts_counterexample:
  "receipts db_R3 = [rec_R3] \<and> r_type rec_R3 = ''cancellation'' \<and> amount rec_R3 = 100
   \<and> findById (bills db_R3) (billingId rec_R3) = Some bill_B2
   \<and> paid (b_payment bill_B2) = 300
   \<and> fixZeroAmountReceipts no_faults db_R3 =
       (db_R3, FixedZero ''Successfully fixed 0 receipts'' [] 0)"
proof -
  have "fixZeroAmountReceipts no_faults db_R3 =
       (db_R3, FixedZero ''Successfully fixed 0 receipts'' [] 0)"
    by (simp add: fixZeroAmountReceipts_eq Let_def db_R3_def rec_R3_def mk_receipt_def
          show_nat_0 no_faults_def)
  then show ?thesis
    by (simp add: findById_def db_R3_def rec_R3_def bill_B2_def mk_receipt_def)
qed

text \<open>
  C4, amended.  Take a receipt collection with unique \<^verbatim>\<open>_id\<close>s and receipt numbers, and
  in it a receipt of type \<open>creation\<close> or \<open>cancellation\<close> whose amount differs from
  \<open>payment.paid > 0\<close> of bill \<open>b\<close>.  If \<open>b\<close> is the bill found for the receipt's bill
  number, a successful \<^verbatim>\<open>fixSpecificBillReceipt\<close> for that number leaves the receipt
  with amount \<open>payment.paid\<close> and lists exactly one record for it, with the old and the
  new amount.  If \<open>b\<close> is the bill found through the receipt's \<open>billingId\<close> and the
  receipt's amount is \<open>\<le> 0\<close>, a successful \<^verbatim>\<open>fixZeroAmountReceipts\<close> does the same.
  Either handler succeeds when none of its storage calls fails.
\<close>

theorem amount_correction:
  assumes "distinct (map r_id (receipts d))" and "distinct (map receiptNumber (receipts d))"
    and "r \<in> set (receipts d)"
    and "r_type r = ''creation'' \<or> r_type r = ''cancellation''"
    and "paid (b_payment b) > 0" and "amount r \<noteq> paid (b_payment b)"
  shows "(find (\<lambda>x. b_billNumber x = r_billNumber r) (bills d) = Some b \<longrightarrow>
           (\<forall>F d' resp. fixSpecificBillReceipt F (r_billNumber r) d = (d', resp) \<longrightarrow>
              ((\<forall>k<fix_bill_calls (r_billNumber r) d. F k = None) \<longrightarrow> success resp)
            \<and> (success resp \<longrightarrow>
                 find (\<lambda>x. r_id x = r_id r) (receipts d')
                   = Some (r\<lparr>amount := paid (b_payment b)\<rparr>)
               \<and> filter (\<lambda>f. bf_receiptNumber f = receiptNumber r) (bill_fixed resp)
                   = [\<lparr> bf_receiptNumber = receiptNumber r, bf_oldAmount = amount r,
                        bf_newAmount = paid (b_payment b) \<rparr>])))
       \<and> (amount r \<le> 0 \<and> findById (bills d) (billingId r) = Some b \<longrightarrow>
           (\<forall>F d' resp. fixZeroAmountReceipts F d = (d', resp) \<longrightarrow>
              ((\<forall>k<fix_zero_calls d. F k = None) \<longrightarrow> success resp)
            \<and> (success resp \<longrightarrow>
                 find (\<lambda>x. r_id x = r_id r) (receipts d')
                   = Some (r\<lparr>amount := paid (b_payment b)\<rparr>)
               \<and> filter (\<lambda>f. fr_receiptNumber f = receiptNumber r) (zero_fixed resp)
                   = [\<lparr> fr_receiptNumber = receiptNumber r, fr_billNumber = r_billNumber r,
                        fr_oldAmount = amount r, fr_newAmount = paid (b_payment b),
                        fr_type = r_type r \<rparr>])))"
proof -
  have bill_ok: "success resp"
    if "find (\<lambda>x. b_billNumber x = r_billNumber r) (bills d) = Some b"
      and "fixSpecificBillReceipt F (r_billNumber r) d = (d', resp)"
      and "\<forall>k<fix_bill_calls (r_billNumber r) d. F k = None" for F d' resp
  proof -
    from that(1,3) have "success (snd (fixSpecificBillReceipt F (r_billNumber r) d))"
      by (rule fixBill_succeeds)
    with that(2) show ?thesis by simp
  qed
  have bill: "find (\<lambda>x. r_id x = r_id r) (receipts d')
               = Some (r\<lparr>amount := paid (b_payment b)\<rparr>)
       \<and> filter (\<lambda>f. bf_receiptNumber f = receiptNumber r) (bill_fixed resp)
           = [\<lparr> bf_receiptNumber = receiptNumber r, bf_oldAmount = amount r,
                bf_newAmount = paid (b_payment b) \<rparr>]"
    if b: "find (\<lambda>x. b_billNumber x = r_billNumber r) (bills d) = Some b"
      and run: "fixSpecificBillReceipt F (r_billNumber r) d = (d', resp)"
      and ok: "success resp" for F d' resp
  proof -
    have fx: "bill_fix b r = Some (paid (b_payment b))"
      using assms(4,5,6) by (auto simp: bill_fix_def bill_correctAmount_def Let_def)
    have "find (\<lambda>x. r_id x = r_id r) (receipts d')
            = Some (r\<lparr>amount := paid (b_payment b)\<rparr>)
       \<and> filter (\<lambda>f. bf_receiptNumber f = receiptNumber r) (bill_fixed resp)
           = [bill_fixed_entry r (paid (b_payment b))]"
      using assms(1,2,3) refl b fx run ok by (rule fixBill_writes)
    then show ?thesis by (simp add: bill_fixed_entry_def)
  qed
  have zero_ok: "success resp"
    if "fixZeroAmountReceipts F d = (d', resp)"
      and "\<forall>k<fix_zero_calls d. F k = None" for F d' resp
  proof -
    from that(2) have "success (snd (fixZeroAmountReceipts F d))" by (rule fixZero_succeeds)
    with that(1) show ?thesis by simp
  qed
  have zero: "find (\<lambda>x. r_id x = r_id r) (receipts d')
               = Some (r\<lparr>amount := paid (b_payment b)\<rparr>)
       \<and> filter (\<lambda>f. fr_receiptNumber f = receiptNumber r) (zero_fixed resp)
           = [\<lparr> fr_receiptNumber = receiptNumber r, fr_billNumber = r_billNumber r,
                fr_oldAmount = amount r, fr_newAmount = paid (b_payment b),
                fr_type = r_type r \<rparr>]"
    if le: "amount r \<le> 0" and b: "findById (bills d) (billingId r) = Some b"
      and run: "fixZeroAmountReceipts F d = (d', resp)"
      and ok: "success resp" for F d' resp
  proof -
    have fx: "zero_fix (bills d) r = Some (paid (b_payment b))"
      using assms(4,5,6) b by (auto simp: zero_fix_def zero_correctAmount_def)
    have "find (\<lambda>x. r_id x = r_id r) (receipts d')
            = Some (r\<lparr>amount := paid (b_payment b)\<rparr>)
       \<and> filter (\<lambda>f. fr_receiptNumber f = receiptNumber r) (zero_fixed resp)
           = [zero_fixed_entry r (paid (b_payment b))]"
      using assms(1,2,3) le fx run ok by (rule fixZero_writes)
    then show ?thesis by (simp add: zero_fixed_entry_def)
  qed
  show ?thesis
  proof (intro conjI)
    show "find (\<lambda>x. b_billNumber x = r_billNumber r) (bills d) = Some b \<longrightarrow>
           (\<forall>F d' resp. fixSpecificBillReceipt F (r_billNumber r) d = (d', resp) \<longrightarrow>
              ((\<forall>k<fix_bill_calls (r_billNumber r) d. F k = None) \<longrightarrow> success resp)
            \<and> (success resp \<longrightarrow>
                 find (\<lambda>x. r_id x = r_id r) (receipts d')
                   = Some (r\<lparr>amount := paid (b_payment b)\<rparr>)
               \<and> filter (\<lambda>f. bf_receiptNumber f = receiptNumber r) (bill_fixed resp)
                   = [\<lparr> bf_receiptNumber = receiptNumber r, bf_oldAmount = amount r,
                        bf_newAmount = paid (b_payment b) \<rparr>]))"
      using bill_ok bill by (intro impI allI conjI) blast+
    show "amount r \<le> 0 \<and> findById (bills d) (billingId r) = Some b \<longrightarrow>
           (\<forall>F d' resp. fixZeroAmountReceipts F d = (d', resp) \<longrightarrow>
              ((\<forall>k<fix_zero_calls d. F k = None) \<longrightarrow> success resp)
            \<and> (success resp \<longrightarrow>
                 find (\<lambda>x. r_id x = r_id r) (receipts d')
                   = Some (r\<lparr>amount := paid (b_payment b)\<rparr>)
               \<and> filter (\<lambda>f. fr_receiptNumber f = receiptNumber r) (zero_fixed resp)
                   = [\<lparr> fr_receiptNumber = receiptNumber r, fr_billNumber = r_billNumber r,
                        fr_oldAmount = amount r, fr_newAmount = paid (b_payment b),
                        fr_type = r_type r \<rparr>]))"
      using zero_ok zero by (intro impI allI conjI) blast+
  qed
qed

theorem amount_correction_witness:
  "r_type rec_R1 = ''creation'' \<and> amount rec_R1 = 0 \<and> paid (b_payment bill_B2) = 300
   \<and> find (\<lambda>x. b_billNumber x = r_billNumber rec_R1) (bills ledger) = Some bill_B2
   \<and> findById (bills ledger) (billingId rec_R1) = Some bill_B2
   \<and> success (snd (fixSpecificBillReceipt no_faults ''B2'' ledger))
   \<and> find (\<lambda>x. r_id x = r_id rec_R1)
        (receipts (fst (fixSpecificBillReceipt no_faults ''B2'' ledger)))
       = Some (rec_R1\<lparr>amount := 300\<rparr>)
   \<and> filter (\<lambda>f. bf_receiptNumber f = ''R1'')
        (bill_fixed (snd (fixSpecificBillReceipt no_faults ''B2'' ledger)))
       = [\<lparr> bf_receiptNumber = ''R1'', bf_oldAmount = 0, bf_newAmount = 300 \<rparr>]
   \<and> success (snd (fixZeroAmountReceipts no_faults ledger))
   \<and> find (\<lambda>x. r_id x = r_id rec_R1) (receipts (fst (fixZeroAmountReceipts no_faults ledger)))
       = Some (rec_R1\<lparr>amount := 300\<rparr>)
   \<and> filter (\<lambda>f. fr_receiptNumber f = ''R1'')
        (zero_fixed (snd (fixZeroAmountReceipts no_faults ledger)))
       = [\<lparr> fr_receiptNumber = ''R1'', fr_billNumber = ''B2'', fr_oldAmount = 0,
            fr_newAmount = 300, fr_type = ''creation'' \<rparr>]"
proof -
  have r: "rec_R1 \<in> set (receipts ledger)" by (simp add: ledger_def)
  have ty: "r_type rec_R1 = ''creation'' \<or> r_type rec_R1 = ''cancellation''"
    by (simp add: ledger_defs)
  have pd: "paid (b_payment bill_B2) > 0" by (simp add: bill_B2_def)
  have ne: "amount rec_R1 \<noteq> paid (b_payment bill_B2)" by (simp add: ledger_defs)
  have fld: "r_type rec_R1 = ''creation''" "amount rec_R1 = 0" "paid (b_payment bill_B2) = 300"
    "receiptNumber rec_R1 = ''R1''" "r_billNumber rec_R1 = ''B2''"
    by (simp_all add: ledger_defs)
  have b1: "find (\<lambda>x. b_billNumber x = r_billNumber rec_R1) (bills ledger) = Some bill_B2"
    by (simp add: ledger_defs)
  have b2: "findById (bills ledger) (billingId rec_R1) = Some bill_B2"
    by (simp add: findById_def ledger_defs)
  have runz: "fixZeroAmountReceipts no_faults ledger =
     (fst (fixZeroAmountReceipts no_faults ledger),
      snd (fixZeroAmountReceipts no_faults ledger))" by simp
  have runb: "fixSpecificBillReceipt no_faults (r_billNumber rec_R1) ledger =
     (fst (fixSpecificBillReceipt no_faults (r_billNumber rec_R1) ledger),
      snd (fixSpecificBillReceipt no_faults (r_billNumber rec_R1) ledger))" by simp
  note T = amount_correction [OF ledger_distinct r ty pd ne]
  from T b1 runb ledger_no_faults(2)
  have "success (snd (fixSpecificBillReceipt no_faults (r_billNumber rec_R1) ledger))
      \<and> find (\<lambda>x. r_id x = r_id rec_R1)
          (receipts (fst (fixSpecificBillReceipt no_faults (r_billNumber rec_R1) ledger)))
         = Some (rec_R1\<lparr>amount := paid (b_payment bill_B2)\<rparr>)
      \<and> filter (\<lambda>f. bf_receiptNumber f = receiptNumber rec_R1)
          (bill_fixed (snd (fixSpecificBillReceipt no_faults (r_billNumber rec_R1) ledger)))
         = [\<lparr> bf_receiptNumber = receiptNumber rec_R1, bf_oldAmount = amount rec_R1,
              bf_newAmount = paid (b_payment bill_B2) \<rparr>]"
    by blast
  moreover from T b2 runz ledger_no_faults(1) fld(2)
  have "success (snd (fixZeroAmountReceipts no_faults ledger))
      \<and> find (\<lambda>x. r_id x = r_id rec_R1)
          (receipts (fst (fixZeroAmountReceipts no_faults ledger)))
         = Some (rec_R1\<lparr>amount := paid (b_payment bill_B2)\<rparr>)
      \<and> filter (\<lambda>f. fr_receiptNumber f = receiptNumber rec_R1)
          (zero_fixed (snd (fixZeroAmountReceipts no_faults ledger)))
         = [\<lparr> fr_receiptNumber = receiptNumber rec_R1, fr_billNumber = r_billNumber rec_R1,
              fr_oldAmount = amount rec_R1, fr_newAmount = paid (b_payment bill_B2),
              fr_type = r_type rec_R1 \<rparr>]"
    by (metis order_refl)
  ultimately show ?thesis using b1 b2 unfolding fld by simp
qed

text \<open>
  C5.  Neither \<^verbatim>\<open>fixZeroAmountReceipts\<close> nor \<^verbatim>\<open>fixSpecificBillReceipt\<close> writes an
  amount that is zero or negative: every receipt held after the call is a receipt held
  before it or has a positive amount.  In a receipt collection with unique \<^verbatim>\<open>_id\<close>s and
  receipt numbers, a receipt whose computed correct amount is \<open>\<le> 0\<close> is the same document
  after the call and has no record in the fixed list.
\<close>

theorem no_destructive_correction:
  shows "(\<forall>F d' resp. fixZeroAmountReceipts F d = (d', resp) \<longrightarrow>
            (\<forall>x\<in>set (receipts d'). x \<in> set (receipts d) \<or> 0 < amount x)
          \<and> (distinct (map r_id (receipts d)) \<and> distinct (map receiptNumber (receipts d)) \<longrightarrow>
              (\<forall>r b c. r \<in> set (receipts d) \<and> findById (bills d) (billingId r) = Some b
                        \<and> zero_correctAmount r b = Some c \<and> c \<le> 0 \<longrightarrow>
                   find (\<lambda>x. r_id x = r_id r) (receipts d') = Some r
                 \<and> filter (\<lambda>f. fr_receiptNumber f = receiptNumber r) (zero_fixed resp) = [])))
       \<and> (\<forall>F billNumber d' resp. fixSpecificBillReceipt F billNumber d = (d', resp) \<longrightarrow>
            (\<forall>x\<in>set (receipts d'). x \<in> set (receipts d) \<or> 0 < amount x)
          \<and> (distinct (map r_id (receipts d)) \<and> distinct (map receiptNumber (receipts d)) \<longrightarrow>
              (\<forall>r b. r \<in> set (receipts d)
                        \<and> find (\<lambda>x. b_billNumber x = billNumber) (bills d) = Some b
                        \<and> bill_correctAmount r b \<le> 0 \<longrightarrow>
                   find (\<lambda>x. r_id x = r_id r) (receipts d') = Some r
                 \<and> filter (\<lambda>f. bf_receiptNumber f = receiptNumber r) (bill_fixed resp) = [])))"
proof (intro conjI allI impI ballI; (elim conjE)?)
  fix F d' resp x
  assume run: "fixZeroAmountReceipts F d = (d', resp)" and x: "x \<in> set (receipts d')"
  have pos: "\<And>r c. zero_fix (bills d) r = Some c \<Longrightarrow> 0 < c"
    by (auto simp: zero_fix_def split: option.splits if_splits)
  have "\<And>zs. x \<in> set (apply_updates (zero_fix (bills d)) zs (receipts d))
            \<Longrightarrow> x \<in> set (receipts d) \<or> 0 < amount x"
    by (rule apply_updates_positive [where dec = "zero_fix (bills d)"]) (rule pos)
  with fixZero_outcome [OF run] x show "x \<in> set (receipts d) \<or> 0 < amount x"
    by auto
next
  fix F d' resp r b c
  assume run: "fixZeroAmountReceipts F d = (d', resp)"
    and dist: "distinct (map r_id (receipts d))" "distinct (map receiptNumber (receipts d))"
    and r: "r \<in> set (receipts d)" "findById (bills d) (billingId r) = Some b"
      "zero_correctAmount r b = Some c" "c \<le> 0"
  from r have "amount r \<le> 0 \<longrightarrow> zero_fix (bills d) r = None" by (simp add: zero_fix_def)
  with dist r(1) have "find (\<lambda>x. r_id x = r_id r) (receipts d') = Some r
       \<and> filter (\<lambda>f. fr_receiptNumber f = receiptNumber r) (zero_fixed resp) = []"
    using run by (rule fixZero_skips)
  then show "find (\<lambda>x. r_id x = r_id r) (receipts d') = Some r"
    and "filter (\<lambda>f. fr_receiptNumber f = receiptNumber r) (zero_fixed resp) = []"
    by simp_all
next
  fix F billNumber d' resp x
  assume run: "fixSpecificBillReceipt F billNumber d = (d', resp)"
    and x: "x \<in> set (receipts d')"
  have pos: "\<And>billing r c. bill_fix billing r = Some c \<Longrightarrow> 0 < c"
    by (auto simp: bill_fix_def Let_def split: if_splits)
  have "\<And>billing zs. x \<in> set (apply_updates (bill_fix billing) zs (receipts d))
            \<Longrightarrow> x \<in> set (receipts d) \<or> 0 < amount x"
    by (rule apply_updates_positive [where dec = "bill_fix billing" for billing]) (rule pos)
  with fixBill_outcome [OF run] x show "x \<in> set (receipts d) \<or> 0 < amount x"
    by auto
next
  fix F billNumber d' resp r b
  assume run: "fixSpecificBillReceipt F billNumber d = (d', resp)"
    and dist: "distinct (map r_id (receipts d))" "distinct (map receiptNumber (receipts d))"
    and r: "r \<in> set (receipts d)" "find (\<lambda>x. b_billNumber x = billNumber) (bills d) = Some b"
      "bill_correctAmount r b \<le> 0"
  have skip: "\<And>billing. find (\<lambda>b. b_billNumber b = billNumber) (bills d) = Some billing
            \<Longrightarrow> r_billNumber r = billNumber \<longrightarrow> bill_fix billing r = None"
    using r(2,3) by (simp add: bill_fix_def Let_def)
  have "find (\<lambda>x. r_id x = r_id r) (receipts d') = Some r
       \<and> filter (\<lambda>f. bf_receiptNumber f = receiptNumber r) (bill_fixed resp) = []"
    using dist r(1) skip run by (rule fixBill_skips)
  then show "find (\<lambda>x. r_id x = r_id r) (receipts d') = Some r"
    and "filter (\<lambda>f. bf_receiptNumber f = receiptNumber r) (bill_fixed resp) = []"
    by simp_all
qed

theorem no_destructive_correction_witness:
  "findById (bills ledger) (billingId rec_R4) = Some bill_B4
   \<and> zero_correctAmount rec_R4 bill_B4 = Some 0
   \<and> find (\<lambda>x. r_id x = r_id rec_R4) (receipts (fst (fixZeroAmountReceipts no_faults ledger)))
       = Some rec_R4
   \<and> filter (\<lambda>f. fr_receiptNumber f = receiptNumber rec_R4)
        (zero_fixed (snd (fixZeroAmountReceipts no_faults ledger))) = []
   \<and> find (\<lambda>x. b_billNumber x = ''B4'') (bills ledger) = Some bill_B4
   \<and> bill_correctAmount rec_R4 bill_B4 = 0
   \<and> find (\<lambda>x. r_id x = r_id rec_R4)
        (receipts (fst (fixSpecificBillReceipt no_faults ''B4'' ledger))) = Some rec_R4
   \<and> filter (\<lambda>f. bf_receiptNumber f = receiptNumber rec_R4)
        (bill_fixed (snd (fixSpecificBillReceipt no_faults ''B4'' ledger))) = []"
proof -
  have r: "rec_R4 \<in> set (receipts ledger)" by (simp add: ledger_def)
  have z1: "findById (bills ledger) (billingId rec_R4) = Some bill_B4"
    by (simp add: findById_def ledger_defs)
  have z2: "zero_correctAmount rec_R4 bill_B4 = Some 0"
    by (simp add: zero_correctAmount_def ledger_defs)
  have b1: "find (\<lambda>x. b_billNumber x = ''B4'') (bills ledger) = Some bill_B4"
    by (simp add: ledger_defs)
  have b2: "bill_correctAmount rec_R4 bill_B4 = 0"
    by (simp add: bill_correctAmount_def ledger_defs)
  have runz: "fixZeroAmountReceipts no_faults ledger =
     (fst (fixZeroAmountReceipts no_faults ledger),
      snd (fixZeroAmountReceipts no_faults ledger))" by simp
  have runb: "fixSpecificBillReceipt no_faults ''B4'' ledger =
     (fst (fixSpecificBillReceipt no_faults ''B4'' ledger),
      snd (fixSpecificBillReceipt no_faults ''B4'' ledger))" by simp
  note T = no_destructive_correction [of ledger]
  from T runz ledger_distinct r z1 z2
  have "find (\<lambda>x. r_id x = r_id rec_R4)
          (receipts (fst (fixZeroAmountReceipts no_faults ledger))) = Some rec_R4
      \<and> filter (\<lambda>f. fr_receiptNumber f = receiptNumber rec_R4)
          (zero_fixed (snd (fixZeroAmountReceipts no_faults ledger))) = []"
    by (metis order_refl)
  moreover from T runb ledger_distinct r b1 b2
  have "find (\<lambda>x. r_id x = r_id rec_R4)
          (receipts (fst (fixSpecificBillReceipt no_faults ''B4'' ledger))) = Some rec_R4
      \<and> filter (\<lambda>f. bf_receiptNumber f = receiptNumber rec_R4)
          (bill_fixed (snd (fixSpecificBillReceipt no_faults ''B4'' ledger))) = []"
    by (metis order_refl)
  ultimately show ?thesis using z1 z2 b1 b2 by simp
qed

text \<open>
  C6, the claim as stated fails: receipt \<open>R4\<close> has amount \<open>0\<close>, but the bill it belongs
  to has \<open>payment.paid = 0\<close>, and the report's \<open>zeroAmountReceipts\<close> is empty.
\<close>

theorem zero_amount_needs_paid_bill_counterexample:
  "receipts db_B4 = [rec_R4] \<and> amount rec_R4 = 0
   \<and> getReceiptAuditReport no_faults db_B4 =
       Audit ''Receipt audit report generated successfully''
         \<lparr> totalBills = 1, totalReceipts = 1, billsWithoutReceipts = [],
           zeroAmountReceipts = [], duplicateReceipts = [], orphanedReceipts = [] \<rparr>"
  by (simp add: eval_audit db_B4_def bill_B4_def rec_R4_def mk_receipt_def)

text \<open>
  C6, amended.  The report's \<open>zeroAmountReceipts\<close> list holds, for the bills of the
  snapshot in order, one record for every receipt that carries the bill's number and
  has amount \<open>\<le> 0\<close>, provided the bill's \<open>payment.paid > 0\<close>, and nothing else.  So no
  record is of a receipt with amount \<open>> 0\<close>; a receipt with amount \<open>\<le> 0\<close> whose bill
  number belongs to no bill with \<open>payment.paid > 0\<close> is not listed.
\<close>

theorem audit_zero_amount_receipts:
  assumes "getReceiptAuditReport F d = Audit m rep"
  shows "zeroAmountReceipts rep =
           concat (map (\<lambda>b. map (zero_entry b)
                          (filter (\<lambda>r. r_billNumber r = b_billNumber b \<and> amount r \<le> 0
                                       \<and> paid (b_payment b) > 0) (receipts d)))
                     (bills d))
       \<and> (\<forall>z\<in>set (zeroAmountReceipts rep). ze_receiptAmount z \<le> 0)"
proof -
  from assms have rep: "rep = audit_report (bills d) (receipts d)"
    by (simp add: getReceiptAuditReport_def split: option.splits)
  then have eq: "zeroAmountReceipts rep =
           concat (map (\<lambda>b. map (zero_entry b)
                          (filter (\<lambda>r. r_billNumber r = b_billNumber b \<and> amount r \<le> 0
                                       \<and> paid (b_payment b) > 0) (receipts d)))
                     (bills d))"
    by (simp add: audit_report_zero)
  have "\<forall>z\<in>set (zeroAmountReceipts rep). ze_receiptAmount z \<le> 0"
    unfolding eq by (auto simp: zero_entry_def)
  with eq show ?thesis by simp
qed

theorem audit_zero_amount_receipts_witness:
  "getReceiptAuditReport no_faults ledger =
     Audit ''Receipt audit report generated successfully''
       (audit_report (bills ledger) (receipts ledger))
   \<and> map ze_receiptNumber
        (zeroAmountReceipts (audit_report (bills ledger) (receipts ledger)))
       = [''R1'', ''R2'', ''R5'']"
proof -
  have run: "getReceiptAuditReport no_faults ledger =
     Audit ''Receipt audit report generated successfully''
       (audit_report (bills ledger) (receipts ledger))"
    by (simp add: getReceiptAuditReport_def no_faults_def)
  show ?thesis
    using audit_zero_amount_receipts [OF run] run
    by (simp add: zero_entry_def ledger_def bill_B1_def bill_B2_def bill_B4_def rec_R1_def
          rec_R2_def rec_R3_def rec_R4_def rec_R5_def mk_receipt_def)
qed

text \<open>
  C7.  In a receipt collection with unique \<^verbatim>\<open>_id\<close>s and receipt numbers, a receipt of
  type \<open>payment\<close> is the same document after \<^verbatim>\<open>fixZeroAmountReceipts\<close> and after
  \<^verbatim>\<open>fixSpecificBillReceipt\<close>, and has no record in the fixed list.  The pass goes on over
  the other receipts: what it writes to them and what it lists is what the handler
  writes and lists when the payment receipt is not in the collection.
\<close>

theorem payment_receipts_skipped:
  assumes "distinct (map r_id (receipts d))" and "distinct (map receiptNumber (receipts d))"
    and "r \<in> set (receipts d)" and "r_type r = ''payment''"
  shows "(\<forall>F d' resp. fixZeroAmountReceipts F d = (d', resp) \<longrightarrow>
            find (\<lambda>x. r_id x = r_id r) (receipts d') = Some r
          \<and> filter (\<lambda>f. fr_receiptNumber f = receiptNumber r) (zero_fixed resp) = [])
       \<and> (\<forall>F billNumber d' resp. fixSpecificBillReceipt F billNumber d = (d', resp) \<longrightarrow>
            find (\<lambda>x. r_id x = r_id r) (receipts d') = Some r
          \<and> filter (\<lambda>f. bf_receiptNumber f = receiptNumber r) (bill_fixed resp) = [])
       \<and> receipts (fst (fixZeroAmountReceipts no_faults
                           (d\<lparr>receipts := filter (\<lambda>x. x \<noteq> r) (receipts d)\<rparr>)))
           = filter (\<lambda>x. x \<noteq> r) (receipts (fst (fixZeroAmountReceipts no_faults d)))
       \<and> zero_fixed (snd (fixZeroAmountReceipts no_faults
                             (d\<lparr>receipts := filter (\<lambda>x. x \<noteq> r) (receipts d)\<rparr>)))
           = zero_fixed (snd (fixZeroAmountReceipts no_faults d))
       \<and> (\<forall>billNumber.
            receipts (fst (fixSpecificBillReceipt no_faults billNumber
                             (d\<lparr>receipts := filter (\<lambda>x. x \<noteq> r) (receipts d)\<rparr>)))
              = filter (\<lambda>x. x \<noteq> r)
                  (receipts (fst (fixSpecificBillReceipt no_faults billNumber d)))
          \<and> bill_fixed (snd (fixSpecificBillReceipt no_faults billNumber
                                (d\<lparr>receipts := filter (\<lambda>x. x \<noteq> r) (receipts d)\<rparr>)))
              = bill_fixed (snd (fixSpecificBillReceipt no_faults billNumber d)))"
proof (intro conjI allI impI)
  fix F d' resp
  assume run: "fixZeroAmountReceipts F d = (d', resp)"
  have "amount r \<le> 0 \<longrightarrow> zero_fix (bills d) r = None"
    using assms(4) by (simp add: payment_zero_fix)
  with assms(1,2,3) have "find (\<lambda>x. r_id x = r_id r) (receipts d') = Some r
          \<and> filter (\<lambda>f. fr_receiptNumber f = receiptNumber r) (zero_fixed resp) = []"
    using run by (rule fixZero_skips)
  then show "find (\<lambda>x. r_id x = r_id r) (receipts d') = Some r"
    and "filter (\<lambda>f. fr_receiptNumber f = receiptNumber r) (zero_fixed resp) = []"
    by simp_all
next
  fix F billNumber d' resp
  assume run: "fixSpecificBillReceipt F billNumber d = (d', resp)"
  have skip: "\<And>billing. find (\<lambda>b. b_billNumber b = billNumber) (bills d) = Some billing
            \<Longrightarrow> r_billNumber r = billNumber \<longrightarrow> bill_fix billing r = None"
    using assms(4) by (simp add: payment_bill_fix)
  have "find (\<lambda>x. r_id x = r_id r) (receipts d') = Some r
          \<and> filter (\<lambda>f. bf_receiptNumber f = receiptNumber r) (bill_fixed resp) = []"
    using assms(1,2,3) skip run by (rule fixBill_skips)
  then show "find (\<lambda>x. r_id x = r_id r) (receipts d') = Some r"
    and "filter (\<lambda>f. bf_receiptNumber f = receiptNumber r) (bill_fixed resp) = []"
    by simp_all
next
  have z: "zero_fix (bills d) r = None" using assms(4) by (rule payment_zero_fix)
  show "receipts (fst (fixZeroAmountReceipts no_faults
                           (d\<lparr>receipts := filter (\<lambda>x. x \<noteq> r) (receipts d)\<rparr>)))
           = filter (\<lambda>x. x \<noteq> r) (receipts (fst (fixZeroAmountReceipts no_faults d)))"
    using apply_updates_remove [where P = "\<lambda>r. amount r \<le> 0" and dec = "zero_fix (bills d)",
            OF assms(1,3)] z
    by (simp add: fixZero_no_faults)
  show "zero_fixed (snd (fixZeroAmountReceipts no_faults
                             (d\<lparr>receipts := filter (\<lambda>x. x \<noteq> r) (receipts d)\<rparr>)))
           = zero_fixed (snd (fixZeroAmountReceipts no_faults d))"
    by (simp add: fixZero_no_faults
          fixed_entries_remove_filter [where dec = "zero_fix (bills d)" and r = r, OF z]
          del: filter_filter)
next
  fix billNumber
  show "receipts (fst (fixSpecificBillReceipt no_faults billNumber
                             (d\<lparr>receipts := filter (\<lambda>x. x \<noteq> r) (receipts d)\<rparr>)))
              = filter (\<lambda>x. x \<noteq> r)
                  (receipts (fst (fixSpecificBillReceipt no_faults billNumber d)))"
  proof (cases "find (\<lambda>b. b_billNumber b = billNumber) (bills d)")
    case None
    then show ?thesis by (simp add: fixBill_no_faults)
  next
    case (Some billing)
    have "bill_fix billing r = None" using assms(4) by (rule payment_bill_fix)
    then show ?thesis
      using apply_updates_remove [where P = "\<lambda>r. r_billNumber r = billNumber"
              and dec = "bill_fix billing", OF assms(1,3)] Some
      by (simp add: fixBill_no_faults)
  qed
  show "bill_fixed (snd (fixSpecificBillReceipt no_faults billNumber
                                (d\<lparr>receipts := filter (\<lambda>x. x \<noteq> r) (receipts d)\<rparr>)))
              = bill_fixed (snd (fixSpecificBillReceipt no_faults billNumber d))"
  proof (cases "find (\<lambda>b. b_billNumber b = billNumber) (bills d)")
    case None
    then show ?thesis by (simp add: fixBill_no_faults)
  next
    case (Some billing)
    have "bill_fix billing r = None" using assms(4) by (rule payment_bill_fix)
    then show ?thesis
      using Some
      by (simp add: fixBill_no_faults
            fixed_entries_remove_filter [where dec = "bill_fix billing" and r = r]
            del: filter_filter)
  qed
qed

theorem payment_receipts_skipped_witness:
  "r_type rec_R2 = ''payment'' \<and> amount rec_R2 = 0
   \<and> find (\<lambda>x. r_id x = r_id rec_R2) (receipts (fst (fixZeroAmountReceipts no_faults ledger)))
       = Some rec_R2
   \<and> filter (\<lambda>f. fr_receiptNumber f = receiptNumber rec_R2)
        (zero_fixed (snd (fixZeroAmountReceipts no_faults ledger))) = []
   \<and> find (\<lambda>x. r_id x = r_id rec_R2)
        (receipts (fst (fixSpecificBillReceipt no_faults ''B2'' ledger))) = Some rec_R2
   \<and> filter (\<lambda>f. bf_receiptNumber f = receiptNumber rec_R2)
        (bill_fixed (snd (fixSpecificBillReceipt no_faults ''B2'' ledger))) = []
   \<and> zero_fixed (snd (fixZeroAmountReceipts no_faults
                         (ledger\<lparr>receipts := filter (\<lambda>x. x \<noteq> rec_R2) (receipts ledger)\<rparr>)))
       = zero_fixed (snd (fixZeroAmountReceipts no_faults ledger))
   \<and> receipts (fst (fixZeroAmountReceipts no_faults
                       (ledger\<lparr>receipts := filter (\<lambda>x. x \<noteq> rec_R2) (receipts ledger)\<rparr>)))
       = filter (\<lambda>x. x \<noteq> rec_R2) (receipts (fst (fixZeroAmountReceipts no_faults ledger)))"
proof -
  have r: "rec_R2 \<in> set (receipts ledger)" by (simp add: ledger_def)
  have ty: "r_type rec_R2 = ''payment''" by (simp add: ledger_defs)
  have am: "amount rec_R2 = 0" by (simp add: ledger_defs)
  have runz: "fixZeroAmountReceipts no_faults ledger =
     (fst (fixZeroAmountReceipts no_faults ledger),
      snd (fixZeroAmountReceipts no_faults ledger))" by simp
  have runb: "fixSpecificBillReceipt no_faults ''B2'' ledger =
     (fst (fixSpecificBillReceipt no_faults ''B2'' ledger),
      snd (fixSpecificBillReceipt no_faults ''B2'' ledger))" by simp
  note T = payment_receipts_skipped [OF ledger_distinct r ty]
  from T runz
  have "find (\<lambda>x. r_id x = r_id rec_R2)
          (receipts (fst (fixZeroAmountReceipts no_faults ledger))) = Some rec_R2
      \<and> filter (\<lambda>f. fr_receiptNumber f = receiptNumber rec_R2)
          (zero_fixed (snd (fixZeroAmountReceipts no_faults ledger))) = []"
    by blast
  moreover from T runb
  have "find (\<lambda>x. r_id x = r_id rec_R2)
          (receipts (fst (fixSpecificBillReceipt no_faults ''B2'' ledger))) = Some rec_R2
      \<and> filter (\<lambda>f. bf_receiptNumber f = receiptNumber rec_R2)
          (bill_fixed (snd (fixSpecificBillReceipt no_faults ''B2'' ledger))) = []"
    by blast
  moreover from T
  have "zero_fixed (snd (fixZeroAmountReceipts no_faults
                         (ledger\<lparr>receipts := filter (\<lambda>x. x \<noteq> rec_R2) (receipts ledger)\<rparr>)))
       = zero_fixed (snd (fixZeroAmountReceipts no_faults ledger))
     \<and> receipts (fst (fixZeroAmountReceipts no_faults
                       (ledger\<lparr>receipts := filter (\<lambda>x. x \<noteq> rec_R2) (receipts ledger)\<rparr>)))
       = filter (\<lambda>x. x \<noteq> rec_R2) (receipts (fst (fixZeroAmountReceipts no_faults ledger)))"
    by blast
  ultimately show ?thesis using ty am by simp
qed



text \<open>
  C9.  \<^verbatim>\<open>fixZeroAmountReceipts\<close> and \<^verbatim>\<open>fixSpecificBillReceipt\<close> leave the bill
  collection as it is and keep every receipt at its place, with every field but
  \<open>amount\<close> unchanged: nothing is deleted or added.  In a receipt collection with unique
  \<^verbatim>\<open>_id\<close>s, a receipt that differs after the call is one the pass classified for
  correction, and it differs by its amount being the correct amount.
\<close>

theorem fix_frame:
  shows "(\<forall>F d' resp. fixZeroAmountReceipts F d = (d', resp) \<longrightarrow>
            bills d' = bills d \<and> length (receipts d') = length (receipts d)
          \<and> (\<forall>i<length (receipts d).
                (receipts d' ! i)\<lparr>amount := amount (receipts d ! i)\<rparr> = receipts d ! i)
          \<and> (distinct (map r_id (receipts d)) \<longrightarrow>
              (\<forall>i<length (receipts d). receipts d' ! i \<noteq> receipts d ! i \<longrightarrow>
                 amount (receipts d ! i) \<le> 0
               \<and> (\<exists>b c. findById (bills d) (billingId (receipts d ! i)) = Some b
                      \<and> zero_correctAmount (receipts d ! i) b = Some c
                      \<and> 0 < c \<and> c \<noteq> amount (receipts d ! i)
                      \<and> receipts d' ! i = (receipts d ! i)\<lparr>amount := c\<rparr>))))
       \<and> (\<forall>F billNumber d' resp. fixSpecificBillReceipt F billNumber d = (d', resp) \<longrightarrow>
            bills d' = bills d \<and> length (receipts d') = length (receipts d)
          \<and> (\<forall>i<length (receipts d).
                (receipts d' ! i)\<lparr>amount := amount (receipts d ! i)\<rparr> = receipts d ! i)
          \<and> (distinct (map r_id (receipts d)) \<longrightarrow>
              (\<forall>i<length (receipts d). receipts d' ! i \<noteq> receipts d ! i \<longrightarrow>
                 r_billNumber (receipts d ! i) = billNumber
               \<and> (\<exists>b. find (\<lambda>x. b_billNumber x = billNumber) (bills d) = Some b
                      \<and> 0 < bill_correctAmount (receipts d ! i) b
                      \<and> bill_correctAmount (receipts d ! i) b \<noteq> amount (receipts d ! i)
                      \<and> receipts d' ! i =
                          (receipts d ! i)\<lparr>amount := bill_correctAmount (receipts d ! i) b\<rparr>))))"
proof (intro conjI allI impI)
  fix F d' resp
  assume run: "fixZeroAmountReceipts F d = (d', resp)"
  define s' where "s' = apply_updates (zero_fix (bills d))
                          (filter (\<lambda>r. amount r \<le> 0) (receipts d)) (receipts d)"
  from fixZero_outcome [OF run]
  have cases: "d' = d \<or> d' = d\<lparr>receipts := s'\<rparr>" unfolding s'_def by blast
  then show "bills d' = bills d" by auto
  from cases show "length (receipts d') = length (receipts d)"
    by (auto simp: s'_def pass_length)
  {
    fix i assume i: "i < length (receipts d)"
    from cases show "(receipts d' ! i)\<lparr>amount := amount (receipts d ! i)\<rparr> = receipts d ! i"
    proof
      assume "d' = d"
      then show ?thesis by (simp only: keep_amount)
    next
      assume "d' = d\<lparr>receipts := s'\<rparr>"
      then have "receipts d' = s'" by simp
      then show ?thesis unfolding s'_def using pass_frame_nth [OF i] by (simp only:)
    qed
  }
  {
    fix i
    assume dist: "distinct (map r_id (receipts d))" and i: "i < length (receipts d)"
      and ne: "receipts d' ! i \<noteq> receipts d ! i"
    from cases ne have d': "receipts d' = s'" by auto
    with ne have "s' ! i \<noteq> receipts d ! i" by simp
    then have P: "amount (receipts d ! i) \<le> 0"
      and "\<exists>c. zero_fix (bills d) (receipts d ! i) = Some c \<and> c \<noteq> amount (receipts d ! i)
             \<and> s' ! i = (receipts d ! i)\<lparr>amount := c\<rparr>"
      unfolding s'_def
      using pass_changed_nth [where P = "\<lambda>r. amount r \<le> 0" and dec = "zero_fix (bills d)",
              OF dist i]
      by blast+
    then obtain c where c: "zero_fix (bills d) (receipts d ! i) = Some c"
      and new: "s' ! i = (receipts d ! i)\<lparr>amount := c\<rparr>" by blast
    from zero_fix_Some [OF c] obtain b where
      "findById (bills d) (billingId (receipts d ! i)) = Some b"
      "zero_correctAmount (receipts d ! i) b = Some c" "0 < c" "c \<noteq> amount (receipts d ! i)"
      by blast
    with new d' have "\<exists>b c. findById (bills d) (billingId (receipts d ! i)) = Some b
                      \<and> zero_correctAmount (receipts d ! i) b = Some c
                      \<and> 0 < c \<and> c \<noteq> amount (receipts d ! i)
                      \<and> receipts d' ! i = (receipts d ! i)\<lparr>amount := c\<rparr>"
      by (intro exI [of _ b] exI [of _ c]) (simp only: simp_thms)
    with P show "amount (receipts d ! i) \<le> 0"
      and "\<exists>b c. findById (bills d) (billingId (receipts d ! i)) = Some b
                      \<and> zero_correctAmount (receipts d ! i) b = Some c
                      \<and> 0 < c \<and> c \<noteq> amount (receipts d ! i)
                      \<and> receipts d' ! i = (receipts d ! i)\<lparr>amount := c\<rparr>"
      by blast+
  }
next
  fix F billNumber d' resp
  assume run: "fixSpecificBillReceipt F billNumber d = (d', resp)"
  from fixBill_outcome [OF run]
  have cases: "d' = d \<or> (\<exists>billing. find (\<lambda>b. b_billNumber b = billNumber) (bills d) = Some billing
        \<and> d' = d\<lparr>receipts := apply_updates (bill_fix billing)
                                 (filter (\<lambda>r. r_billNumber r = billNumber) (receipts d))
                                 (receipts d)\<rparr>)"
    by blast
  then show "bills d' = bills d" by auto
  from cases show "length (receipts d') = length (receipts d)"
    by (auto simp: pass_length)
  {
    fix i assume i: "i < length (receipts d)"
    from cases show "(receipts d' ! i)\<lparr>amount := amount (receipts d ! i)\<rparr> = receipts d ! i"
    proof (elim disjE exE conjE)
      assume "d' = d"
      then show ?thesis by (simp only: keep_amount)
    next
      fix billing
      assume "d' = d\<lparr>receipts := apply_updates (bill_fix billing)
                                 (filter (\<lambda>r. r_billNumber r = billNumber) (receipts d))
                                 (receipts d)\<rparr>"
      then have "receipts d' = apply_updates (bill_fix billing)
                                 (filter (\<lambda>r. r_billNumber r = billNumber) (receipts d))
                                 (receipts d)" by simp
      then show ?thesis using pass_frame_nth [OF i] by (simp only:)
    qed
  }
  {
    fix i
    assume dist: "distinct (map r_id (receipts d))" and i: "i < length (receipts d)"
      and ne: "receipts d' ! i \<noteq> receipts d ! i"
    from cases ne obtain billing where
      b: "find (\<lambda>b. b_billNumber b = billNumber) (bills d) = Some billing"
      and d': "receipts d' = apply_updates (bill_fix billing)
                                 (filter (\<lambda>r. r_billNumber r = billNumber) (receipts d))
                                 (receipts d)"
      by auto
    from ne have "apply_updates (bill_fix billing)
                    (filter (\<lambda>r. r_billNumber r = billNumber) (receipts d))
                    (receipts d) ! i \<noteq> receipts d ! i"
      by (simp only: d' [symmetric] not_False_eq_True)
    then have P: "r_billNumber (receipts d ! i) = billNumber"
      and "\<exists>c. bill_fix billing (receipts d ! i) = Some c \<and> c \<noteq> amount (receipts d ! i)
             \<and> receipts d' ! i = (receipts d ! i)\<lparr>amount := c\<rparr>"
      unfolding d'
      using pass_changed_nth [where P = "\<lambda>r. r_billNumber r = billNumber"
              and dec = "bill_fix billing", OF dist i]
      by blast+
    then obtain c where c: "bill_fix billing (receipts d ! i) = Some c"
      and new: "receipts d' ! i = (receipts d ! i)\<lparr>amount := c\<rparr>" by blast
    from bill_fix_Some [OF c] have
      "c = bill_correctAmount (receipts d ! i) billing" "0 < c" "c \<noteq> amount (receipts d ! i)"
      by blast+
    with new b have "\<exists>b. find (\<lambda>x. b_billNumber x = billNumber) (bills d) = Some b
                      \<and> 0 < bill_correctAmount (receipts d ! i) b
                      \<and> bill_correctAmount (receipts d ! i) b \<noteq> amount (receipts d ! i)
                      \<and> receipts d' ! i =
                          (receipts d ! i)\<lparr>amount := bill_correctAmount (receipts d ! i) b\<rparr>"
      by (intro exI [of _ billing]) (simp only: simp_thms)
    with P show "r_billNumber (receipts d ! i) = billNumber"
      and "\<exists>b. find (\<lambda>x. b_billNumber x = billNumber) (bills d) = Some b
                      \<and> 0 < bill_correctAmount (receipts d ! i) b
                      \<and> bill_correctAmount (receipts d ! i) b \<noteq> amount (receipts d ! i)
                      \<and> receipts d' ! i =
                          (receipts d ! i)\<lparr>amount := bill_correctAmount (receipts d ! i) b\<rparr>"
      by blast+
  }
qed

theorem fix_frame_witness:
  "bills (fst (fixZeroAmountReceipts no_faults ledger)) = bills ledger
   \<and> length (receipts (fst (fixZeroAmountReceipts no_faults ledger))) = length (receipts ledger)
   \<and> (receipts (fst (fixZeroAmountReceipts no_faults ledger)) ! 0)
        \<lparr>amount := amount (receipts ledger ! 0)\<rparr> = receipts ledger ! 0
   \<and> receipts (fst (fixZeroAmountReceipts no_faults ledger)) ! 1 = receipts ledger ! 1
   \<and> bills (fst (fixSpecificBillReceipt no_faults ''B2'' ledger)) = bills ledger
   \<and> length (receipts (fst (fixSpecificBillReceipt no_faults ''B2'' ledger)))
       = length (receipts ledger)
   \<and> (receipts (fst (fixSpecificBillReceipt no_faults ''B2'' ledger)) ! 2)
        \<lparr>amount := amount (receipts ledger ! 2)\<rparr> = receipts ledger ! 2
   \<and> receipts (fst (fixSpecificBillReceipt no_faults ''B2'' ledger)) ! 3 = receipts ledger ! 3"
proof -
  have runz: "fixZeroAmountReceipts no_faults ledger =
     (fst (fixZeroAmountReceipts no_faults ledger),
      snd (fixZeroAmountReceipts no_faults ledger))" by simp
  have runb: "fixSpecificBillReceipt no_faults ''B2'' ledger =
     (fst (fixSpecificBillReceipt no_faults ''B2'' ledger),
      snd (fixSpecificBillReceipt no_faults ''B2'' ledger))" by simp
  have len: "0 < length (receipts ledger)" "1 < length (receipts ledger)"
    "2 < length (receipts ledger)" "3 < length (receipts ledger)"
    by (simp_all add: ledger_def)
  have nz: "\<forall>b. zero_correctAmount (receipts ledger ! 1) b = None"
    by (simp add: zero_correctAmount_def ledger_defs)
  have nb: "r_billNumber (receipts ledger ! 3) \<noteq> ''B2''"
    by (simp add: ledger_defs)
  note T = fix_frame [of ledger]
  from T runz have Z: "bills (fst (fixZeroAmountReceipts no_faults ledger)) = bills ledger
     \<and> length (receipts (fst (fixZeroAmountReceipts no_faults ledger)))
         = length (receipts ledger)
     \<and> (\<forall>i<length (receipts ledger).
           (receipts (fst (fixZeroAmountReceipts no_faults ledger)) ! i)
             \<lparr>amount := amount (receipts ledger ! i)\<rparr> = receipts ledger ! i)
     \<and> (distinct (map r_id (receipts ledger)) \<longrightarrow>
          (\<forall>i<length (receipts ledger).
             receipts (fst (fixZeroAmountReceipts no_faults ledger)) ! i \<noteq> receipts ledger ! i
             \<longrightarrow> amount (receipts ledger ! i) \<le> 0
               \<and> (\<exists>b c. findById (bills ledger) (billingId (receipts ledger ! i)) = Some b
                      \<and> zero_correctAmount (receipts ledger ! i) b = Some c
                      \<and> 0 < c \<and> c \<noteq> amount (receipts ledger ! i)
                      \<and> receipts (fst (fixZeroAmountReceipts no_faults ledger)) ! i
                          = (receipts ledger ! i)\<lparr>amount := c\<rparr>)))"
    by blast
  from T runb have B: "bills (fst (fixSpecificBillReceipt no_faults ''B2'' ledger)) = bills ledger
     \<and> length (receipts (fst (fixSpecificBillReceipt no_faults ''B2'' ledger)))
         = length (receipts ledger)
     \<and> (\<forall>i<length (receipts ledger).
           (receipts (fst (fixSpecificBillReceipt no_faults ''B2'' ledger)) ! i)
             \<lparr>amount := amount (receipts ledger ! i)\<rparr> = receipts ledger ! i)
     \<and> (distinct (map r_id (receipts ledger)) \<longrightarrow>
          (\<forall>i<length (receipts ledger).
             receipts (fst (fixSpecificBillReceipt no_faults ''B2'' ledger)) ! i
               \<noteq> receipts ledger ! i
             \<longrightarrow> r_billNumber (receipts ledger ! i) = ''B2''
               \<and> (\<exists>b. find (\<lambda>x. b_billNumber x = ''B2'') (bills ledger) = Some b
                      \<and> 0 < bill_correctAmount (receipts ledger ! i) b
                      \<and> bill_correctAmount (receipts ledger ! i) b \<noteq> amount (receipts ledger ! i)
                      \<and> receipts (fst (fixSpecificBillReceipt no_faults ''B2'' ledger)) ! i
                          = (receipts ledger ! i)
                              \<lparr>amount := bill_correctAmount (receipts ledger ! i) b\<rparr>)))"
    by blast
  have z1: "receipts (fst (fixZeroAmountReceipts no_faults ledger)) ! 1 = receipts ledger ! 1"
    using Z ledger_distinct(1) len(2) nz by (metis option.distinct(1))
  have b3: "receipts (fst (fixSpecificBillReceipt no_faults ''B2'' ledger)) ! 3
              = receipts ledger ! 3"
    using B ledger_distinct(1) len(4) nb by metis
  show ?thesis using Z B len z1 b3 by blast
qed

text \<open>
  C10.  \<^verbatim>\<open>fixZeroAmountReceipts\<close> finds the bill of a receipt through the receipt's
  \<open>billingId\<close> only.  In a receipt collection with unique \<^verbatim>\<open>_id\<close>s and receipt
  numbers, a receipt whose \<open>billingId\<close> is no bill's \<^verbatim>\<open>_id\<close> is the same document
  after the call and has no record in the fixed list, whatever bills carry its bill
  number.
\<close>

theorem fixZero_resolves_bill_by_billingId:
  assumes "distinct (map r_id (receipts d))" and "distinct (map receiptNumber (receipts d))"
    and "r \<in> set (receipts d)"
    and "\<forall>b\<in>set (bills d). billingId r \<noteq> Some (b_id b)"
    and "fixZeroAmountReceipts F d = (d', resp)"
  shows "find (\<lambda>x. r_id x = r_id r) (receipts d') = Some r
       \<and> filter (\<lambda>f. fr_receiptNumber f = receiptNumber r) (zero_fixed resp) = []"
proof -
  have "findById (bills d) (billingId r) = None"
    using assms(4) by (rule findById_None)
  then have "zero_fix (bills d) r = None" by (simp add: zero_fix_def)
  then have "amount r \<le> 0 \<longrightarrow> zero_fix (bills d) r = None" by simp
  with assms(1,2,3) show ?thesis using assms(5) by (rule fixZero_skips)
qed

theorem fixZero_resolves_bill_by_billingId_witness:
  "rec_R5 \<in> set (receipts ledger) \<and> bill_B2 \<in> set (bills ledger)
   \<and> r_billNumber rec_R5 = b_billNumber bill_B2 \<and> amount rec_R5 = 0
   \<and> r_type rec_R5 = ''creation'' \<and> paid (b_payment bill_B2) = 300
   \<and> success (snd (fixZeroAmountReceipts no_faults ledger))
   \<and> find (\<lambda>x. r_id x = r_id rec_R5) (receipts (fst (fixZeroAmountReceipts no_faults ledger)))
       = Some rec_R5
   \<and> filter (\<lambda>f. fr_receiptNumber f = receiptNumber rec_R5)
        (zero_fixed (snd (fixZeroAmountReceipts no_faults ledger))) = []"
proof -
  have h3: "rec_R5 \<in> set (receipts ledger)" by (simp add: ledger_def)
  have h4: "\<forall>b\<in>set (bills ledger). billingId rec_R5 \<noteq> Some (b_id b)"
    by (simp add: ledger_defs)
  have run: "fixZeroAmountReceipts no_faults ledger =
     (fst (fixZeroAmountReceipts no_faults ledger),
      snd (fixZeroAmountReceipts no_faults ledger))" by simp
  have facts: "bill_B2 \<in> set (bills ledger)" "r_billNumber rec_R5 = b_billNumber bill_B2"
    "amount rec_R5 = 0" "r_type rec_R5 = ''creation''" "paid (b_payment bill_B2) = 300"
    by (simp_all add: ledger_defs)
  show ?thesis
    using fixZero_resolves_bill_by_billingId [OF ledger_distinct h3 h4 run]
      h3 facts fixZero_succeeds [OF ledger_no_faults(1)]
    by simp
qed

end
